theory Spec2Isabelle
  imports Complex_Main "HOL-Library.Char_ord" "HOL-Library.List_Lexorder"
begin

section \<open>Petalbyte backup manager: data model\<close>

text \<open>
  The development embeds the orchestration code of \<^verbatim>\<open>backend/app/core\<close>
  (\<^verbatim>\<open>backup_engine.py\<close>, \<^verbatim>\<open>cleanup.py\<close>, \<^verbatim>\<open>snapshot.py\<close>,
  \<^verbatim>\<open>verification.py\<close>) and the start handler of \<^verbatim>\<open>backend/app/api/backup.py\<close>.

  Conventions.
  \<^item> A Python \<^verbatim>\<open>raise Exception(msg)\<close> is the value \<open>Inl msg\<close>; a normal return is \<open>Inr v\<close>.
  \<^item> Everything outside the process is explicit: the sent-snapshot table, the files of the
    remote host and the entries of the local snapshot directory form the \<open>world\<close> that every
    operation takes and returns (with the backup-history table); whether an SSH command, a
    subprocess or a database statement goes through is read from the environment \<open>env\<close>, so
    that every failure branch of the source is a branch of the model. The environment gives
    the same answer to the same command throughout one operation.
  \<^item> Timestamps (\<^verbatim>\<open>datetime.now().timestamp()\<close>, \<^verbatim>\<open>st_ctime\<close>, \<^verbatim>\<open>sent_at\<close>) are seconds
    as real numbers; one clock reading \<open>now\<close> stands for the instant of the operation.
  \<^item> Progress callbacks and log calls have no effect on the results and are left out.
  \<^item> Most statements reach the database as plain strings given to \<^verbatim>\<open>session.execute\<close>.
    \<^verbatim>\<open>database.py\<close> builds its sessions with \<^verbatim>\<open>async_sessionmaker\<close>, which exists from
    SQLAlchemy 2.0 on, and the \<^verbatim>\<open>execute\<close> of that version raises \<^verbatim>\<open>ArgumentError\<close> for a
    plain string. The general results below hold for every database; the results on what the
    program does as it stands are stated for a database that rejects these statements
    (\<open>textual\<close> below, and the environment \<open>source_env\<close>).
\<close>

subsection \<open>Strings\<close>

text \<open>\<^verbatim>\<open>str.startswith\<close> and \<^verbatim>\<open>str.endswith\<close>.\<close>

fun startswith :: "string \<Rightarrow> string \<Rightarrow> bool" where
  "startswith s [] = True"
| "startswith [] (p # ps) = False"
| "startswith (c # cs) (p # ps) = (c = p \<and> startswith cs ps)"

definition endswith :: "string \<Rightarrow> string \<Rightarrow> bool" where
  "endswith s p = startswith (rev s) (rev p)"

text \<open>\<^verbatim>\<open>str.count("_")\<close>.\<close>

definition count_underscore :: "string \<Rightarrow> nat" where
  "count_underscore s = length (filter (\<lambda>c. c = CHR ''_'') s)"

text \<open>A path lies under a directory when it starts with the directory followed by a slash.\<close>

definition under_dir :: "string \<Rightarrow> string \<Rightarrow> bool" where
  "under_dir d p = startswith p (d @ ''/'')"

text \<open>\<^verbatim>\<open>s.split("/")\<close> and \<^verbatim>\<open>"/".join(parts)\<close>.\<close>

fun split_slash :: "string \<Rightarrow> string list" where
  "split_slash [] = [[]]"
| "split_slash (c # cs) =
     (if c = CHR ''/'' then [] # split_slash cs
      else (case split_slash cs of
              [] \<Rightarrow> [[c]]
            | p # ps \<Rightarrow> (c # p) # ps))"

fun join_slash :: "string list \<Rightarrow> string" where
  "join_slash [] = []"
| "join_slash [p] = p"
| "join_slash (p # q # ps) = p @ ''/'' @ join_slash (q # ps)"

text \<open>How \<^verbatim>\<open>pathlib\<close> reads a POSIX path: the root is \<^verbatim>\<open>//\<close> for exactly two leading
  slashes, \<^verbatim>\<open>/\<close> for one or for more than two, and empty otherwise; the parts are the
  components between the slashes without the empty ones and without \<^verbatim>\<open>.\<close>.\<close>

definition posix_root :: "string \<Rightarrow> string" where
  "posix_root s =
     (if startswith s ''//'' \<and> \<not> startswith s ''///'' then ''//''
      else if startswith s ''/'' then ''/''
      else [])"

definition posix_parts :: "string \<Rightarrow> string list" where
  "posix_parts s = filter (\<lambda>p. p \<noteq> [] \<and> p \<noteq> ''.'') (split_slash s)"

text \<open>Two path strings name the same file when both are absolute or both are relative, and
  their components agree: the kernel skips repeated slashes and \<^verbatim>\<open>.\<close> (links and \<^verbatim>\<open>..\<close>
  are left out).\<close>

definition same_file :: "string \<Rightarrow> string \<Rightarrow> bool" where
  "same_file p q = (startswith p ''/'' = startswith q ''/'' \<and> posix_parts p = posix_parts q)"

subsection \<open>Models (\<^verbatim>\<open>models.py\<close>, \<^verbatim>\<open>database.py\<close>, \<^verbatim>\<open>config.py\<close>)\<close>

datatype BackupType = FULL | INCREMENTAL

datatype BackupStatus = PENDING | RUNNING | SUCCESS | FAILED | PARTIAL | CANCELLED

text \<open>\<^verbatim>\<open>BackupType.value\<close>.\<close>

fun backup_type_value :: "BackupType \<Rightarrow> string" where
  "backup_type_value FULL = ''full''"
| "backup_type_value INCREMENTAL = ''incremental''"

text \<open>A row of table \<^verbatim>\<open>sent_snapshots\<close> (the sent-ledger); column \<^verbatim>\<open>snapshot_path\<close> is unique.\<close>

record SentSnapshot =
  snapshot_path :: string
  remote_path :: string
  sent_at :: real
  size_bytes :: int
  backup_type_col :: string
  parent_snapshot :: "string option"

text \<open>A row of table \<^verbatim>\<open>backup_history\<close>, as \<^verbatim>\<open>_save_backup_history\<close> fills it.\<close>

record BackupHistory =
  h_backup_type :: string
  h_status :: BackupStatus
  h_size_bytes :: "int option"
  h_error_message :: "string option"

text \<open>The settings the orchestration reads.\<close>

record Settings =
  client_name :: string
  unraid_base_path :: string
  snapshot_dir :: string
  months_to_keep :: int
  daily_incremental_days :: int
  local_snapshot_days :: int
  host_root :: string
  host_home :: string

subsection \<open>The world outside the process\<close>

text \<open>A file of the remote host: path, size in bytes, modification time (epoch seconds).\<close>

record remote_file =
  rpath :: string
  rsize :: int
  rmtime :: int

text \<open>An entry of the local snapshot directory.\<close>

record dir_entry =
  ename :: string
  is_dir :: bool
  st_ctime :: real

record world =
  ledger :: "SentSnapshot list"
  history :: "BackupHistory list"
  remote :: "remote_file list"
  snapdir :: "dir_entry list"

text \<open>The remote commands that \<^verbatim>\<open>SSHManager.execute_command\<close> is asked to run.\<close>

datatype remote_cmd =
    CmdFind string
  | CmdStat string
  | CmdRm string
  | CmdLsMonths string
  | CmdRmRf string
  | CmdFindDelete string int
  | CmdMkdir string
  | CmdCheck string

text \<open>The statements sent to the database.\<close>

datatype db_op =
    DbCount
  | DbSelectRemotePaths
  | DbSelectSent string
  | DbInsert string
  | DbDeleteLike string
  | DbDeleteIncremental
  | DbSaveHistory

text \<open>The statements that the source gives to \<^verbatim>\<open>session.execute\<close> as a plain string: all
  but the two that go through the ORM (\<^verbatim>\<open>session.add\<close> of a \<^verbatim>\<open>SentSnapshot\<close> or of a
  \<^verbatim>\<open>BackupHistory\<close>).\<close>

fun textual :: "db_op \<Rightarrow> bool" where
  "textual DbCount = True"
| "textual DbSelectRemotePaths = True"
| "textual (DbSelectSent p) = True"
| "textual (DbInsert p) = False"
| "textual (DbDeleteLike pat) = True"
| "textual DbDeleteIncremental = True"
| "textual DbSaveHistory = False"

text \<open>The three places where \<^verbatim>\<open>perform_backup\<close> reads \<^verbatim>\<open>self.cancel_requested\<close>.\<close>

datatype checkpoint = AfterCleanup | AfterSnapshots | BeforeSubvolume nat

text \<open>What the producer pipeline \<^verbatim>\<open>btrfs send | gzip | gpg > temp_file\<close> did: its standard
  error on a non-zero return code, or the size of the staged file.\<close>

datatype pipeline_outcome = PipelineFailed string | PipelineOk int

text \<open>What \<^verbatim>\<open>cat local | ssh ... 'cat > remote'\<close> did: the return code was zero or not
  (with its standard error), and the number of bytes that reached the remote file, if the file
  was created at all.\<close>

record transfer_outcome =
  returncode_ok :: bool
  transfer_stderr :: string
  written :: "int option"

record env =
  settings :: Settings
  now :: real
  local_now :: real
  utcnow :: real
  day :: nat
  date_str :: string
  month_str :: string
  timestamp_str :: string
  unraid_host :: "string option"
  ssh_ok :: "remote_cmd \<Rightarrow> bool"
  db_ok :: "db_op \<Rightarrow> bool"
  cancel_requested :: "checkpoint \<Rightarrow> bool"
  snapshot_ok :: "string \<Rightarrow> bool"
  delete_ok :: "string \<Rightarrow> bool"
  snapdir_exists :: bool
  pipeline :: "string option \<Rightarrow> string \<Rightarrow> pipeline_outcome"
  transfer :: "string \<Rightarrow> transfer_outcome"

text \<open>
  \<open>unraid_host\<close> is what \<^verbatim>\<open>_get_unraid_host\<close> returns (\<open>None\<close>: it raised);
  \<open>day\<close>, \<open>date_str\<close>, \<open>month_str\<close> and \<open>timestamp_str\<close> are \<^verbatim>\<open>datetime.now()\<close>
  as \<^verbatim>\<open>.day\<close>, \<^verbatim>\<open>%Y%m%d\<close>, \<^verbatim>\<open>%Y%m\<close> and \<^verbatim>\<open>%Y%m%d_%H%M%S\<close>.
  \<open>ssh_ok c\<close> is false when the SSH connection for command \<open>c\<close> fails: then
  \<^verbatim>\<open>execute_command\<close> returns \<^verbatim>\<open>{"success": False}\<close> and the remote host is unchanged.
  \<open>db_ok q\<close> is false when statement \<open>q\<close> raises.
  \<open>cancel_requested c\<close> is the value of \<^verbatim>\<open>self.cancel_requested\<close> that the run reads at \<open>c\<close>
  (\<^verbatim>\<open>cancel_backup\<close> sets the flag from another task while the run is suspended).
  \<open>snapshot_ok p\<close> and \<open>delete_ok p\<close> say whether \<^verbatim>\<open>btrfs subvolume snapshot\<close> and
  \<^verbatim>\<open>btrfs subvolume delete\<close> return zero for the snapshot path \<open>p\<close>; \<open>snapdir_exists\<close> is
  \<^verbatim>\<open>snapshot_dir.exists()\<close>. \<open>pipeline parent p\<close> is the outcome of the producer pipeline for
  snapshot \<open>p\<close> (relative to \<open>parent\<close>, if any), and \<open>transfer f\<close> that of the transfer to the
  remote file \<open>f\<close>.
\<close>

section \<open>Remote commands\<close>

text \<open>\<^verbatim>\<open>find 'base' -name '*.btrfs.gpg' -type f\<close>: the artifacts under \<open>base\<close>.\<close>

definition find_artifacts :: "remote_file list \<Rightarrow> string \<Rightarrow> string list" where
  "find_artifacts fs base =
     map rpath (filter (\<lambda>f. under_dir base (rpath f) \<and> endswith (rpath f) ''.btrfs.gpg'') fs)"

text \<open>\<^verbatim>\<open>stat -c %Y 'p'\<close>: the modification time, when the file exists.\<close>

definition stat_mtime :: "remote_file list \<Rightarrow> string \<Rightarrow> int option" where
  "stat_mtime fs p = map_option rmtime (find (\<lambda>f. rpath f = p) fs)"

text \<open>\<^verbatim>\<open>rm -f 'p'\<close>.\<close>

definition rm_file :: "remote_file list \<Rightarrow> string \<Rightarrow> remote_file list" where
  "rm_file fs p = filter (\<lambda>f. rpath f \<noteq> p) fs"

text \<open>\<^verbatim>\<open>rm -rf 'd'\<close>.\<close>

definition rm_rf :: "remote_file list \<Rightarrow> string \<Rightarrow> remote_file list" where
  "rm_rf fs d = filter (\<lambda>f. \<not> under_dir d (rpath f) \<and> rpath f \<noteq> d) fs"

section \<open>Orphan sweep (\<^verbatim>\<open>CleanupManager.cleanup_failed_uploads\<close>)\<close>

text \<open>The dictionaries the cleanup functions return.\<close>

datatype cleanup_result =
    CleanupError string
  | OrphanReport nat nat
  | MonthlyReport nat "string list"
  | IncrementalReport bool
  | LocalReport nat

text \<open>The loop over the orphans: the age check and the deletion, with the count of deletions.\<close>

fun delete_orphans :: "env \<Rightarrow> string list \<Rightarrow> remote_file list \<Rightarrow> nat \<Rightarrow> remote_file list \<times> nat" where
  "delete_orphans e [] fs deleted_count = (fs, deleted_count)"
| "delete_orphans e (orphan # rest) fs deleted_count =
     (if ssh_ok e (CmdStat orphan) then
        (case stat_mtime fs orphan of
           None \<Rightarrow> delete_orphans e rest fs deleted_count
         | Some file_time \<Rightarrow>
             (let file_age_hours = (now e - real_of_int file_time) / 3600 in
              if file_age_hours > 1 then
                (if ssh_ok e (CmdRm orphan)
                 then delete_orphans e rest (rm_file fs orphan) (deleted_count + 1)
                 else delete_orphans e rest fs deleted_count)
              else delete_orphans e rest fs deleted_count))
      else delete_orphans e rest fs deleted_count)"

definition cleanup_failed_uploads :: "env \<Rightarrow> world \<Rightarrow> world \<times> cleanup_result" where
  "cleanup_failed_uploads e w =
     (case unraid_host e of
        None \<Rightarrow> (w, CleanupError ''host resolution failed'')
      | Some host \<Rightarrow>
          (let base_path = unraid_base_path (settings e) @ ''/'' @ client_name (settings e) in
           if \<not> ssh_ok e (CmdFind base_path) then (w, CleanupError ''Failed to list remote files'')
           else
             (let remote_files = filter (\<lambda>f. f \<noteq> []) (find_artifacts (remote w) base_path) in
              if \<not> db_ok e DbSelectRemotePaths then (w, CleanupError ''database error'')
              else
                (let sent_files = map remote_path (ledger w);
                     orphaned_files = filter (\<lambda>remote_file. remote_file \<notin> set sent_files) remote_files;
                     (fs', deleted_count) = delete_orphans e orphaned_files (remote w) 0
                 in (w\<lparr>remote := fs'\<rparr>, OrphanReport (length orphaned_files) deleted_count)))))"

section \<open>Snapshot manager (\<^verbatim>\<open>snapshot.py\<close>)\<close>

record Snapshot =
  subvolume :: string
  path :: string
  timestamp :: string
  mount_point :: string

text \<open>\<^verbatim>\<open>self.subvolumes\<close>, fixed in the constructor.\<close>

definition subvolumes :: "Settings \<Rightarrow> (string \<times> string) list" where
  "subvolumes s = [(''@'', host_root s), (''@home'', host_home s)]"

text \<open>\<^verbatim>\<open>str(entry)\<close> for an entry of \<^verbatim>\<open>Path(snapshot_dir).iterdir()\<close>: the root and the parts
  of the directory as \<^verbatim>\<open>pathlib\<close> reads them, then the name of the entry. For a directory
  such as \<^verbatim>\<open>/s/\<close> this is not the string \<^verbatim>\<open>f"{snapshot_dir}/{name}"\<close> that
  \<^verbatim>\<open>_create_snapshot\<close> builds and the ledger records.\<close>

definition entry_path :: "env \<Rightarrow> dir_entry \<Rightarrow> string" where
  "entry_path e entry =
     posix_root (snapshot_dir (settings e))
       @ join_slash (posix_parts (snapshot_dir (settings e)) @ [ename entry])"

text \<open>\<^verbatim>\<open>SELECT id FROM sent_snapshots WHERE snapshot_path = ?\<close> returned a row.\<close>

definition was_sent :: "world \<Rightarrow> string \<Rightarrow> bool" where
  "was_sent w p = (p \<in> set (map snapshot_path (ledger w)))"

text \<open>\<^verbatim>\<open>_create_snapshot\<close>: \<open>None\<close> when \<^verbatim>\<open>btrfs subvolume snapshot -r\<close> failed or raised.\<close>

definition create_snapshot :: "env \<Rightarrow> world \<Rightarrow> string \<Rightarrow> string \<Rightarrow> string \<Rightarrow> world \<times> Snapshot option" where
  "create_snapshot e w subvol_name mount timestamp' =
     (let snapshot_path' = snapshot_dir (settings e) @ ''/'' @ subvol_name @ ''_'' @ timestamp' in
      if snapshot_ok e snapshot_path' then
        (w\<lparr>snapdir := snapdir w @
             [\<lparr>ename = subvol_name @ ''_'' @ timestamp', is_dir = True, st_ctime = now e\<rparr>]\<rparr>,
         Some \<lparr>subvolume = subvol_name, path = snapshot_path', timestamp = timestamp',
               mount_point = mount\<rparr>)
      else (w, None))"

text \<open>\<^verbatim>\<open>_delete_snapshot\<close>: true when \<^verbatim>\<open>btrfs subvolume delete\<close> returned zero; then the
  entry that the path names is gone.\<close>

definition delete_snapshot :: "env \<Rightarrow> world \<Rightarrow> string \<Rightarrow> world \<times> bool" where
  "delete_snapshot e w snapshot_path' =
     (if delete_ok e snapshot_path'
      then (w\<lparr>snapdir := filter (\<lambda>entry. \<not> same_file (entry_path e entry) snapshot_path')
                             (snapdir w)\<rparr>, True)
      else (w, False))"

fun delete_snapshots :: "env \<Rightarrow> world \<Rightarrow> Snapshot list \<Rightarrow> world" where
  "delete_snapshots e w [] = w"
| "delete_snapshots e w (s # ss) = delete_snapshots e (fst (delete_snapshot e w (path s))) ss"

text \<open>The loop of \<^verbatim>\<open>create_snapshots\<close>: all snapshots of the run, or none and an exception.\<close>

fun create_snapshots_loop ::
  "env \<Rightarrow> world \<Rightarrow> string \<Rightarrow> (string \<times> string) list \<Rightarrow> Snapshot list \<Rightarrow> world \<times> (string + Snapshot list)" where
  "create_snapshots_loop e w ts [] snapshots = (w, Inr snapshots)"
| "create_snapshots_loop e w ts ((subvol_name, mount) # rest) snapshots =
     (case create_snapshot e w subvol_name mount ts of
        (w1, Some snapshot) \<Rightarrow> create_snapshots_loop e w1 ts rest (snapshots @ [snapshot])
      | (w1, None) \<Rightarrow>
          (delete_snapshots e w1 snapshots, Inl (''Failed to create snapshot for '' @ subvol_name)))"

definition create_snapshots :: "env \<Rightarrow> world \<Rightarrow> world \<times> (string + Snapshot list)" where
  "create_snapshots e w = create_snapshots_loop e w (timestamp_str e) (subvolumes (settings e)) []"

text \<open>The search of \<^verbatim>\<open>find_parent_snapshot\<close> through the candidates, newest first; a database
  error is raised to the caller.\<close>

fun first_sent :: "env \<Rightarrow> world \<Rightarrow> dir_entry list \<Rightarrow> string + string option" where
  "first_sent e w [] = Inr None"
| "first_sent e w (snapshot # rest) =
     (if \<not> db_ok e (DbSelectSent (entry_path e snapshot)) then Inl ''database error''
      else if was_sent w (entry_path e snapshot) then Inr (Some (entry_path e snapshot))
      else first_sent e w rest)"

text \<open>\<^verbatim>\<open>find_parent_snapshot\<close>; \<^verbatim>\<open>sort(key=name, reverse=True)\<close> is a stable descending sort.\<close>

definition find_parent_snapshot :: "env \<Rightarrow> world \<Rightarrow> string \<Rightarrow> string + string option" where
  "find_parent_snapshot e w subvol =
     (if \<not> snapdir_exists e then Inl ''FileNotFoundError''
      else
        (let snapshots = filter (\<lambda>entry. is_dir entry \<and> startswith (ename entry) (subvol @ ''_''))
                           (snapdir w);
             sorted_snapshots = rev (sort_key ename (rev snapshots))
         in first_sent e w sorted_snapshots))"

text \<open>The loop of \<^verbatim>\<open>cleanup_old_snapshots\<close> over the directory entries; the database query is
  not guarded, so its failure ends the loop with an exception.\<close>

fun cleanup_entries :: "env \<Rightarrow> int \<Rightarrow> dir_entry list \<Rightarrow> world \<Rightarrow> nat \<Rightarrow> world \<times> (string + nat)" where
  "cleanup_entries e days [] w deleted_count = (w, Inr deleted_count)"
| "cleanup_entries e days (entry # rest) w deleted_count =
     (let cutoff_time = now e - real_of_int (days * 86400) in
      if is_dir entry \<and> count_underscore (ename entry) \<ge> 2 \<and> st_ctime entry < cutoff_time then
        (if \<not> db_ok e (DbSelectSent (entry_path e entry)) then (w, Inl ''database error'')
         else if was_sent w (entry_path e entry) then
           (case delete_snapshot e w (entry_path e entry) of
              (w1, True) \<Rightarrow> cleanup_entries e days rest w1 (deleted_count + 1)
            | (w1, False) \<Rightarrow> cleanup_entries e days rest w1 deleted_count)
         else
           (let double_cutoff = now e - real_of_int (days * 2 * 86400) in
            if st_ctime entry < double_cutoff then
              (case delete_snapshot e w (entry_path e entry) of
                 (w1, True) \<Rightarrow> cleanup_entries e days rest w1 (deleted_count + 1)
               | (w1, False) \<Rightarrow> cleanup_entries e days rest w1 deleted_count)
            else cleanup_entries e days rest w deleted_count))
      else cleanup_entries e days rest w deleted_count)"

definition cleanup_old_snapshots :: "env \<Rightarrow> world \<Rightarrow> int \<Rightarrow> world \<times> (string + nat)" where
  "cleanup_old_snapshots e w days =
     (if \<not> snapdir_exists e then (w, Inr 0)
      else cleanup_entries e days (snapdir w) w 0)"

section \<open>Retention (\<^verbatim>\<open>cleanup.py\<close>)\<close>

subsection \<open>Monthly purge\<close>

text \<open>The names directly under \<open>base\<close>, as \<^verbatim>\<open>ls -1\<close> prints them.\<close>

definition child_names :: "remote_file list \<Rightarrow> string \<Rightarrow> string list" where
  "child_names fs base =
     remdups (map (\<lambda>f. takeWhile (\<lambda>c. c \<noteq> CHR ''/'') (drop (length base + 1) (rpath f)))
                  (filter (\<lambda>f. under_dir base (rpath f)) fs))"

text \<open>\<^verbatim>\<open>grep -E '^[0-9]{6}$'\<close>.\<close>

definition is_month :: "string \<Rightarrow> bool" where
  "is_month m = (length m = 6 \<and> list_all (\<lambda>c. c \<in> set ''0123456789'') m)"

text \<open>\<^verbatim>\<open>ls -1 'base' | grep -E '^[0-9]{6}$' | sort -r\<close>: the month directories, newest first.\<close>

definition ls_months :: "remote_file list \<Rightarrow> string \<Rightarrow> string list" where
  "ls_months fs base = rev (sort (filter is_month (child_names fs base)))"

text \<open>SQLite's \<^verbatim>\<open>LIKE\<close>: \<^verbatim>\<open>%\<close> stands for any sequence, \<^verbatim>\<open>_\<close> for any one character, and
  ASCII letters match without regard to case.\<close>

definition ascii_lower :: "char \<Rightarrow> char" where
  "ascii_lower c =
     (if c \<in> set ''ABCDEFGHIJKLMNOPQRSTUVWXYZ'' then char_of (of_char c + (32::nat)) else c)"

fun like_match :: "string \<Rightarrow> string \<Rightarrow> bool" where
  "like_match [] s = (s = [])"
| "like_match (p # ps) [] = (p = CHR ''%'' \<and> like_match ps [])"
| "like_match (p # ps) (c # cs) =
     (if p = CHR ''%'' then like_match ps (c # cs) \<or> like_match (p # ps) cs
      else (p = CHR ''_'' \<or> ascii_lower p = ascii_lower c) \<and> like_match ps cs)"

text \<open>\<^verbatim>\<open>DELETE FROM sent_snapshots WHERE remote_path LIKE ?\<close>.\<close>

definition delete_like :: "SentSnapshot list \<Rightarrow> string \<Rightarrow> SentSnapshot list" where
  "delete_like rows pat = filter (\<lambda>r. \<not> like_match pat (remote_path r)) rows"

text \<open>Python's \<^verbatim>\<open>xs[k:]\<close>, where a negative \<open>k\<close> counts from the end.\<close>

definition slice_from :: "'a list \<Rightarrow> int \<Rightarrow> 'a list" where
  "slice_from xs k = (if k \<ge> 0 then drop (nat k) xs else drop (nat (int (length xs) + k)) xs)"

text \<open>The loop over the months beyond retention. Each month: the ledger rows first
  (\<^verbatim>\<open># Remove from database first\<close>), then the directory. An exception of the statement
  leaves the loop; the rows deleted for earlier months were committed.\<close>

fun purge_months ::
  "env \<Rightarrow> string \<Rightarrow> string list \<Rightarrow> world \<Rightarrow> string list \<Rightarrow> world \<times> (string + string list)" where
  "purge_months e base_path [] w deleted_months = (w, Inr deleted_months)"
| "purge_months e base_path (month # rest) w deleted_months =
     (let month_path = base_path @ ''/'' @ month in
      if \<not> db_ok e (DbDeleteLike (month_path @ ''%'')) then (w, Inl ''database error'')
      else
        (let w1 = w\<lparr>ledger := delete_like (ledger w) (month_path @ ''%'')\<rparr>
         in if ssh_ok e (CmdRmRf month_path)
            then purge_months e base_path rest (w1\<lparr>remote := rm_rf (remote w1) month_path\<rparr>)
                   (deleted_months @ [month])
            else purge_months e base_path rest w1 deleted_months))"

text \<open>\<^verbatim>\<open>cleanup_old_monthly_backups\<close>; its handler turns every exception into an error
  dictionary.\<close>

definition cleanup_old_monthly_backups :: "env \<Rightarrow> world \<Rightarrow> world \<times> cleanup_result" where
  "cleanup_old_monthly_backups e w =
     (case unraid_host e of
        None \<Rightarrow> (w, CleanupError ''host resolution failed'')
      | Some host \<Rightarrow>
          (let base_path = unraid_base_path (settings e) @ ''/'' @ client_name (settings e) in
           if \<not> ssh_ok e (CmdLsMonths base_path)
           then (w, CleanupError ''Failed to list month directories'')
           else
             (let months = filter (\<lambda>m. m \<noteq> []) (ls_months (remote w) base_path) in
              if int (length months) > months_to_keep (settings e) then
                (case purge_months e base_path (slice_from months (months_to_keep (settings e))) w [] of
                   (w1, Inl ex) \<Rightarrow> (w1, CleanupError ex)
                 | (w1, Inr deleted_months) \<Rightarrow> (w1, MonthlyReport (length months) deleted_months))
              else (w, MonthlyReport (length months) []))))"

subsection \<open>Incremental purge\<close>

text \<open>\<^verbatim>\<open>find 'dir' -name '*.btrfs.gpg' -mtime +n -delete\<close>: find counts the age in whole days
  (the fraction is dropped) and \<^verbatim>\<open>+n\<close> asks for more than \<open>n\<close> of them.\<close>

definition find_delete_matches :: "env \<Rightarrow> string \<Rightarrow> int \<Rightarrow> remote_file \<Rightarrow> bool" where
  "find_delete_matches e dir n f =
     (under_dir dir (rpath f) \<and> endswith (rpath f) ''.btrfs.gpg''
      \<and> \<lfloor>(now e - real_of_int (rmtime f)) / 86400\<rfloor> > n)"

definition find_delete :: "env \<Rightarrow> remote_file list \<Rightarrow> string \<Rightarrow> int \<Rightarrow> remote_file list" where
  "find_delete e fs dir n = filter (\<lambda>f. \<not> find_delete_matches e dir n f) fs"

text \<open>\<^verbatim>\<open>DELETE FROM sent_snapshots WHERE backup_type = 'incremental' AND sent_at < ?\<close>.\<close>

definition delete_old_incremental_rows :: "SentSnapshot list \<Rightarrow> real \<Rightarrow> SentSnapshot list" where
  "delete_old_incremental_rows rows cutoff_date =
     filter (\<lambda>r. \<not> (backup_type_col r = ''incremental'' \<and> sent_at r < cutoff_date)) rows"

text \<open>\<^verbatim>\<open>cleanup_old_incremental_backups\<close>: the remote deletion, then the statement on the
  ledger (\<^verbatim>\<open># Clean up database entries\<close>); an exception of the statement comes after the
  remote files are gone.\<close>

definition cleanup_old_incremental_backups :: "env \<Rightarrow> world \<Rightarrow> world \<times> cleanup_result" where
  "cleanup_old_incremental_backups e w =
     (case unraid_host e of
        None \<Rightarrow> (w, CleanupError ''host resolution failed'')
      | Some host \<Rightarrow>
          (let current_month = month_str e;
               incremental_path = unraid_base_path (settings e) @ ''/'' @ client_name (settings e)
                                    @ ''/'' @ current_month @ ''/incremental'';
               days = daily_incremental_days (settings e);
               delete_success = ssh_ok e (CmdFindDelete incremental_path days);
               w1 = (if delete_success
                     then w\<lparr>remote := find_delete e (remote w) incremental_path days\<rparr> else w);
               cutoff_date = local_now e - real_of_int (days * 86400)
           in if \<not> db_ok e DbDeleteIncremental then (w1, CleanupError ''database error'')
              else (w1\<lparr>ledger := delete_old_incremental_rows (ledger w1) cutoff_date\<rparr>,
                    IncrementalReport delete_success)))"

subsection \<open>Local snapshot aging\<close>

text \<open>\<^verbatim>\<open>cleanup_local_snapshots\<close> has no handler of its own: an exception of
  \<^verbatim>\<open>cleanup_old_snapshots\<close> goes to the caller.\<close>

definition cleanup_local_snapshots :: "env \<Rightarrow> world \<Rightarrow> world \<times> (string + cleanup_result)" where
  "cleanup_local_snapshots e w =
     (case cleanup_old_snapshots e w (local_snapshot_days (settings e)) of
        (w1, Inl ex) \<Rightarrow> (w1, Inl ex)
      | (w1, Inr deleted_count) \<Rightarrow> (w1, Inr (LocalReport deleted_count)))"

section \<open>Backup engine (\<^verbatim>\<open>backup_engine.py\<close>, \<^verbatim>\<open>verification.py\<close>)\<close>

text \<open>The dictionary that describes the backup of one subvolume; a key that a branch of the
  source leaves out is \<open>None\<close>.\<close>

record subvol_result =
  success :: bool
  res_size :: "int option"
  verified :: "bool option"
  error :: "string option"
  res_backup_type :: "string option"
  res_remote_path :: "string option"
  res_subvolume :: "string option"
  res_snapshot :: "string option"
  res_parent :: "string option"

text \<open>\<^verbatim>\<open>BackupResult\<close> without its clock fields.\<close>

record BackupResult =
  backup_id :: nat
  status :: BackupStatus
  backup_type :: BackupType
  result_size_bytes :: "int option"
  error_message :: "string option"
  subvolume_dict :: "(string \<times> subvol_result) list"

text \<open>\<^verbatim>\<open>_determine_backup_type\<close>.\<close>

definition determine_backup_type :: "env \<Rightarrow> world \<Rightarrow> bool \<Rightarrow> string + BackupType" where
  "determine_backup_type e w force_full =
     (if force_full \<or> day e = 1 then Inr FULL
      else if \<not> db_ok e DbCount then Inl ''database error''
      else (let count = length (ledger w) in Inr (if count > 0 then INCREMENTAL else FULL)))"

text \<open>\<^verbatim>\<open>SSHManager.check_remote_file\<close>: the size of the remote file, or \<open>None\<close> for
  \<^verbatim>\<open>{"exists": False}\<close>.\<close>

definition check_remote_file :: "env \<Rightarrow> world \<Rightarrow> string \<Rightarrow> int option" where
  "check_remote_file e w p =
     (if ssh_ok e (CmdCheck p) then map_option rsize (find (\<lambda>f. rpath f = p) (remote w)) else None)"

text \<open>\<^verbatim>\<open>verify_remote_file\<close>: the entry \<^verbatim>\<open>"matches"\<close> of its result.\<close>

definition verify_remote_file :: "env \<Rightarrow> world \<Rightarrow> string \<Rightarrow> int \<Rightarrow> bool" where
  "verify_remote_file e w remote_path' expected_size =
     (case check_remote_file e w remote_path' of
        None \<Rightarrow> False
      | Some actual_size \<Rightarrow> actual_size = expected_size)"

text \<open>\<^verbatim>\<open>_transfer_with_progress\<close>: what reached the remote file, and the error of a non-zero
  return code (\<open>None\<close> for \<^verbatim>\<open>{"success": True}\<close>).\<close>

definition transfer_with_progress :: "env \<Rightarrow> world \<Rightarrow> string \<Rightarrow> world \<times> string option" where
  "transfer_with_progress e w remote_file' =
     (let t = transfer e remote_file';
          w1 = (case written t of
                  None \<Rightarrow> w
                | Some n \<Rightarrow> w\<lparr>remote := rm_file (remote w) remote_file' @
                                 [\<lparr>rpath = remote_file', rsize = n, rmtime = \<lfloor>now e\<rfloor>\<rparr>]\<rparr>)
      in (w1, if returncode_ok t then None else Some (''Transfer failed: '' @ transfer_stderr t)))"

text \<open>The result dictionary of a send: after a verified or unverified transfer, or the
  transfer's own failure.\<close>

definition send_result :: "bool \<Rightarrow> int \<Rightarrow> subvol_result" where
  "send_result matches file_size =
     \<lparr>success = matches, res_size = Some file_size, verified = Some matches, error = None,
      res_backup_type = None, res_remote_path = None, res_subvolume = None, res_snapshot = None,
      res_parent = None\<rparr>"

definition transfer_failure :: "string \<Rightarrow> subvol_result" where
  "transfer_failure msg =
     \<lparr>success = False, res_size = None, verified = None, error = Some msg,
      res_backup_type = None, res_remote_path = None, res_subvolume = None, res_snapshot = None,
      res_parent = None\<rparr>"

text \<open>\<^verbatim>\<open>_send_snapshot\<close>.\<close>

definition send_snapshot :: "env \<Rightarrow> world \<Rightarrow> string \<Rightarrow> string \<Rightarrow> world \<times> (string + subvol_result)" where
  "send_snapshot e w snapshot_path' remote_file' =
     (case pipeline e None snapshot_path' of
        PipelineFailed stderr \<Rightarrow> (w, Inl (''Backup pipeline failed: '' @ stderr))
      | PipelineOk file_size \<Rightarrow>
          (case transfer_with_progress e w remote_file' of
             (w1, None) \<Rightarrow>
               (w1, Inr (send_result (verify_remote_file e w1 remote_file' file_size) file_size))
           | (w1, Some msg) \<Rightarrow> (w1, Inr (transfer_failure msg))))"

text \<open>\<^verbatim>\<open>_send_incremental_snapshot\<close>.\<close>

definition send_incremental_snapshot ::
  "env \<Rightarrow> world \<Rightarrow> string \<Rightarrow> string \<Rightarrow> string \<Rightarrow> world \<times> (string + subvol_result)" where
  "send_incremental_snapshot e w snapshot_path' parent_path remote_file' =
     (case pipeline e (Some parent_path) snapshot_path' of
        PipelineFailed stderr \<Rightarrow> (w, Inl (''Incremental backup pipeline failed: '' @ stderr))
      | PipelineOk file_size \<Rightarrow>
          (case transfer_with_progress e w remote_file' of
             (w1, None) \<Rightarrow>
               (w1, Inr (send_result (verify_remote_file e w1 remote_file' file_size) file_size))
           | (w1, Some msg) \<Rightarrow> (w1, Inr (transfer_failure msg))))"

text \<open>\<^verbatim>\<open>_is_snapshot_sent\<close>.\<close>

definition is_snapshot_sent :: "env \<Rightarrow> world \<Rightarrow> string \<Rightarrow> string + bool" where
  "is_snapshot_sent e w snapshot_path' =
     (if \<not> db_ok e (DbSelectSent snapshot_path') then Inl ''database error''
      else Inr (was_sent w snapshot_path'))"

text \<open>\<^verbatim>\<open>_record_sent_snapshot\<close>: the insert raises when the database fails or when the unique
  column \<^verbatim>\<open>snapshot_path\<close> already holds the path.\<close>

definition record_sent_snapshot ::
  "env \<Rightarrow> world \<Rightarrow> string \<Rightarrow> string \<Rightarrow> int \<Rightarrow> BackupType \<Rightarrow> string option \<Rightarrow> world \<times> (string + unit)" where
  "record_sent_snapshot e w snapshot_path' remote_path' size' backup_type' parent =
     (if \<not> db_ok e (DbInsert snapshot_path') then (w, Inl ''database error'')
      else if was_sent w snapshot_path' then (w, Inl ''IntegrityError'')
      else
        (w\<lparr>ledger := ledger w @
             [\<lparr>snapshot_path = snapshot_path', remote_path = remote_path', sent_at = utcnow e,
               size_bytes = size', backup_type_col = backup_type_value backup_type',
               parent_snapshot = parent\<rparr>]\<rparr>,
         Inr ()))"

text \<open>\<^verbatim>\<open>_perform_full_backup\<close>. The result of \<^verbatim>\<open>create_remote_directory\<close> is not looked at.\<close>

definition perform_full_backup :: "env \<Rightarrow> world \<Rightarrow> Snapshot \<Rightarrow> world \<times> (string + subvol_result)" where
  "perform_full_backup e w snapshot =
     (let remote_dir = unraid_base_path (settings e) @ ''/'' @ client_name (settings e)
                         @ ''/'' @ month_str e @ ''/full'';
          remote_file' = remote_dir @ ''/'' @ subvolume snapshot @ ''_'' @ date_str e
                         @ ''_full.btrfs.gpg''
      in case send_snapshot e w (path snapshot) remote_file' of
           (w1, Inl ex) \<Rightarrow> (w1, Inl ex)
         | (w1, Inr result) \<Rightarrow>
             (let final = result\<lparr>res_backup_type := Some ''full'',
                                 res_remote_path := Some remote_file',
                                 res_subvolume := Some (subvolume snapshot)\<rparr>
              in if success result then
                   (case res_size result of
                      None \<Rightarrow> (w1, Inl ''KeyError'')
                    | Some size' \<Rightarrow>
                        (case record_sent_snapshot e w1 (path snapshot) remote_file' size' FULL None of
                           (w2, Inl ex) \<Rightarrow> (w2, Inl ex)
                         | (w2, Inr u) \<Rightarrow> (w2, Inr final)))
                 else (w1, Inr final)))"

text \<open>\<^verbatim>\<open>_perform_incremental_backup\<close>.\<close>

definition perform_incremental_backup ::
  "env \<Rightarrow> world \<Rightarrow> Snapshot \<Rightarrow> string \<Rightarrow> world \<times> (string + subvol_result)" where
  "perform_incremental_backup e w snapshot parent =
     (let remote_dir = unraid_base_path (settings e) @ ''/'' @ client_name (settings e)
                         @ ''/'' @ month_str e @ ''/incremental'';
          remote_file' = remote_dir @ ''/'' @ subvolume snapshot @ ''_'' @ date_str e
                         @ ''_incremental.btrfs.gpg''
      in case send_incremental_snapshot e w (path snapshot) parent remote_file' of
           (w1, Inl ex) \<Rightarrow> (w1, Inl ex)
         | (w1, Inr result) \<Rightarrow>
             (let final = result\<lparr>res_backup_type := Some ''incremental'',
                                 res_remote_path := Some remote_file',
                                 res_subvolume := Some (subvolume snapshot),
                                 res_parent := Some parent\<rparr>
              in if success result then
                   (case res_size result of
                      None \<Rightarrow> (w1, Inl ''KeyError'')
                    | Some size' \<Rightarrow>
                        (case record_sent_snapshot e w1 (path snapshot) remote_file' size'
                                INCREMENTAL (Some parent) of
                           (w2, Inl ex) \<Rightarrow> (w2, Inl ex)
                         | (w2, Inr u) \<Rightarrow> (w2, Inr final)))
                 else (w1, Inr final)))"

text \<open>The body of the \<^verbatim>\<open>try\<close> of \<^verbatim>\<open>_backup_snapshot\<close>: full, or incremental against a sent
  parent, or full when there is none.\<close>

definition backup_snapshot_try ::
  "env \<Rightarrow> world \<Rightarrow> Snapshot \<Rightarrow> BackupType \<Rightarrow> world \<times> (string + subvol_result)" where
  "backup_snapshot_try e w snapshot backup_type' =
     (if backup_type' = FULL then perform_full_backup e w snapshot
      else
        (case find_parent_snapshot e w (subvolume snapshot) of
           Inl ex \<Rightarrow> (w, Inl ex)
         | Inr None \<Rightarrow> perform_full_backup e w snapshot
         | Inr (Some parent) \<Rightarrow>
             (if parent = [] then perform_full_backup e w snapshot
              else
                (case is_snapshot_sent e w parent of
                   Inl ex \<Rightarrow> (w, Inl ex)
                 | Inr True \<Rightarrow> perform_incremental_backup e w snapshot parent
                 | Inr False \<Rightarrow> perform_full_backup e w snapshot))))"

text \<open>\<^verbatim>\<open>_backup_snapshot\<close>: every exception becomes a failure dictionary.\<close>

definition backup_snapshot :: "env \<Rightarrow> world \<Rightarrow> Snapshot \<Rightarrow> BackupType \<Rightarrow> world \<times> subvol_result" where
  "backup_snapshot e w snapshot backup_type' =
     (case backup_snapshot_try e w snapshot backup_type' of
        (w1, Inr result) \<Rightarrow> (w1, result)
      | (w1, Inl ex) \<Rightarrow>
          (w1, \<lparr>success = False, res_size = None, verified = None, error = Some ex,
                res_backup_type = None, res_remote_path = None,
                res_subvolume = Some (subvolume snapshot), res_snapshot = Some (path snapshot),
                res_parent = None\<rparr>))"

subsection \<open>\<^verbatim>\<open>perform_backup\<close>\<close>

text \<open>\<^verbatim>\<open>d[k] = v\<close> on a dictionary kept in insertion order.\<close>

fun dict_set :: "('k \<times> 'v) list \<Rightarrow> 'k \<Rightarrow> 'v \<Rightarrow> ('k \<times> 'v) list" where
  "dict_set [] k v = [(k, v)]"
| "dict_set ((k', v') # d) k v = (if k' = k then (k, v) # d else (k', v') # dict_set d k v)"

text \<open>The variables that the loop over the snapshots updates: \<^verbatim>\<open>total_size\<close>,
  \<^verbatim>\<open>subvolume_results\<close> and \<^verbatim>\<open>result.status\<close>.\<close>

record loop_state =
  total_size :: int
  subvolume_results :: "(string \<times> subvol_result) list"
  loop_status :: BackupStatus

text \<open>Step 5, the loop \<^verbatim>\<open>for i, snapshot in enumerate(snapshots)\<close>. The second component is
  the exception that left the loop, if any. The last two keep a trace of the run: the snapshots
  whose backup was attempted, and the places where the cancel flag was read, both in order.\<close>

fun backup_loop ::
  "env \<Rightarrow> BackupType \<Rightarrow> Snapshot list \<Rightarrow> nat \<Rightarrow> world \<Rightarrow> loop_state \<Rightarrow> Snapshot list
     \<Rightarrow> checkpoint list \<Rightarrow> world \<times> string option \<times> loop_state \<times> Snapshot list \<times> checkpoint list" where
  "backup_loop e bt [] i w st attempted checks = (w, None, st, attempted, checks)"
| "backup_loop e bt (snapshot # rest) i w st attempted checks =
     (if cancel_requested e (BeforeSubvolume i)
      then (w, Some ''Backup cancelled by user'', st, attempted, checks @ [BeforeSubvolume i])
      else
        (case backup_snapshot e w snapshot bt of
           (w1, backup_result) \<Rightarrow>
             (let st1 = st\<lparr>subvolume_results :=
                            dict_set (subvolume_results st) (subvolume snapshot) backup_result\<rparr>;
                  st2 = (if success backup_result
                         then st1\<lparr>total_size := total_size st1 +
                                    (case res_size backup_result of Some n \<Rightarrow> n | None \<Rightarrow> 0)\<rparr>
                         else st1\<lparr>loop_status := PARTIAL\<rparr>)
              in backup_loop e bt rest (i + 1) w1 st2 (attempted @ [snapshot])
                   (checks @ [BeforeSubvolume i]))))"

text \<open>The final aggregation: \<^verbatim>\<open>all(...)\<close>, \<^verbatim>\<open>any(...)\<close> over the values of \<^verbatim>\<open>subvolume_results\<close>.\<close>

definition final_status :: "(string \<times> subvol_result) list \<Rightarrow> BackupStatus" where
  "final_status results =
     (if list_all (\<lambda>r. success r) (map snd results) then SUCCESS
      else if list_ex (\<lambda>r. success r) (map snd results) then PARTIAL
      else FAILED)"

text \<open>How far a run got: it raised, or it reached the final aggregation.\<close>

datatype run_end = Raised string | Aggregated

text \<open>The \<^verbatim>\<open>try\<close> block of \<^verbatim>\<open>perform_backup\<close>: the world, how the block ended, the
  \<^verbatim>\<open>result\<close> object at that point, and the trace of the run (the snapshots whose backup was
  attempted, the places where the cancel flag was read). Step 6 only counts the results and
  changes nothing, so it is left out.\<close>

definition perform_backup_try ::
  "env \<Rightarrow> world \<Rightarrow> BackupType option \<Rightarrow> bool
     \<Rightarrow> world \<times> run_end \<times> BackupResult \<times> Snapshot list \<times> checkpoint list" where
  "perform_backup_try e w backup_type' force_full =
     (let result = \<lparr>backup_id = 0, status = RUNNING, backup_type = FULL,
                    result_size_bytes = None, error_message = None, subvolume_dict = []\<rparr>;
          w1 = fst (cleanup_failed_uploads e w)
      in if cancel_requested e AfterCleanup
         then (w1, Raised ''Backup cancelled by user'', result, [], [AfterCleanup])
         else
           (case (case backup_type' of
                    None \<Rightarrow> determine_backup_type e w1 force_full
                  | Some t \<Rightarrow> Inr t) of
              Inl ex \<Rightarrow> (w1, Raised ex, result, [], [AfterCleanup])
            | Inr bt \<Rightarrow>
                (let result1 = result\<lparr>backup_type := bt\<rparr> in
                 case create_snapshots e w1 of
                   (w2, Inl ex) \<Rightarrow> (w2, Raised ex, result1, [], [AfterCleanup])
                 | (w2, Inr snapshots) \<Rightarrow>
                     if cancel_requested e AfterSnapshots
                     then (w2, Raised ''Backup cancelled by user'', result1, [],
                           [AfterCleanup, AfterSnapshots])
                     else
                       (case unraid_host e of
                          None \<Rightarrow> (w2, Raised ''host resolution failed'', result1, [],
                                    [AfterCleanup, AfterSnapshots])
                        | Some host \<Rightarrow>
                            (case backup_loop e bt snapshots 0 w2
                                    \<lparr>total_size = 0, subvolume_results = [],
                                     loop_status = status result1\<rparr> []
                                    [AfterCleanup, AfterSnapshots] of
                               (w3, Some ex, st, attempted, checks) \<Rightarrow>
                                 (w3, Raised ex, result1\<lparr>status := loop_status st\<rparr>, attempted, checks)
                             | (w3, None, st, attempted, checks) \<Rightarrow>
                                 (let result2 = result1\<lparr>status := loop_status st\<rparr>;
                                      w4 = (if bt = FULL \<and> day e = 1
                                            then fst (cleanup_old_monthly_backups e w3) else w3);
                                      w5 = fst (cleanup_old_incremental_backups e w4)
                                  in case cleanup_local_snapshots e w5 of
                                       (w6, Inl ex) \<Rightarrow> (w6, Raised ex, result2, attempted, checks)
                                     | (w6, Inr r) \<Rightarrow>
                                         (w6, Aggregated,
                                          result2\<lparr>result_size_bytes := Some (total_size st),
                                                  subvolume_dict := subvolume_results st,
                                                  status := final_status (subvolume_results st)\<rparr>,
                                          attempted, checks)))))))"

text \<open>The handler \<^verbatim>\<open>except Exception as e\<close>.\<close>

definition handle_exception :: "run_end \<Rightarrow> BackupResult \<Rightarrow> BackupResult" where
  "handle_exception ending result =
     (case ending of
        Aggregated \<Rightarrow> result
      | Raised ex \<Rightarrow> result\<lparr>status := FAILED, error_message := Some ex\<rparr>)"

text \<open>The columns of the class \<^verbatim>\<open>BackupHistory\<close> (\<^verbatim>\<open>database.py\<close>), and the keywords with
  which \<^verbatim>\<open>_save_backup_history\<close> calls its constructor.\<close>

definition BackupHistory_columns :: "string list" where
  "BackupHistory_columns = [''id'', ''timestamp'', ''backup_type'', ''status'', ''size_bytes'',
     ''duration_seconds'', ''error_message'', ''subvolume'', ''snapshot_path'', ''remote_path'',
     ''metadata'']"

definition save_history_keywords :: "string list" where
  "save_history_keywords = [''timestamp'', ''backup_type'', ''status'', ''size_bytes'',
     ''duration_seconds'', ''error_message'', ''extra_metadata'']"

text \<open>\<^verbatim>\<open>_save_backup_history\<close>. The constructor of a mapped class raises \<^verbatim>\<open>TypeError\<close> for a
  keyword that is not an attribute of the class; otherwise the row is added, and its id is
  given to the result.\<close>

definition save_backup_history :: "env \<Rightarrow> world \<Rightarrow> BackupResult \<Rightarrow> world \<times> (string + BackupResult)" where
  "save_backup_history e w result =
     (case filter (\<lambda>k. k \<notin> set BackupHistory_columns) save_history_keywords of
        k # ks \<Rightarrow>
          (w, Inl ([CHR 0x27] @ k @ [CHR 0x27] @ '' is an invalid keyword argument for BackupHistory''))
      | [] \<Rightarrow>
          (if \<not> db_ok e DbSaveHistory then (w, Inl ''database error'')
           else
             (w\<lparr>history := history w @
                  [\<lparr>h_backup_type = backup_type_value (backup_type result), h_status = status result,
                    h_size_bytes = result_size_bytes result,
                    h_error_message = error_message result\<rparr>]\<rparr>,
              Inr (result\<lparr>backup_id := length (history w) + 1\<rparr>))))"

text \<open>\<^verbatim>\<open>perform_backup\<close>: the \<^verbatim>\<open>try\<close> block, the handler, and the \<^verbatim>\<open>finally\<close> block that
  saves the history row; when that raises, so does \<^verbatim>\<open>perform_backup\<close>, and the statement
  \<^verbatim>\<open>self.current_backup = None\<close> after it is not reached.\<close>

definition perform_backup ::
  "env \<Rightarrow> world \<Rightarrow> BackupType option \<Rightarrow> bool \<Rightarrow> world \<times> (string + BackupResult)" where
  "perform_backup e w backup_type' force_full =
     (case perform_backup_try e w backup_type' force_full of
        (w1, ending, result, attempted, checks) \<Rightarrow>
          save_backup_history e w1 (handle_exception ending result))"

section \<open>The start handler (\<^verbatim>\<open>api/backup.py\<close>) and the scheduler (\<^verbatim>\<open>scheduler.py\<close>)\<close>

record BackupProgress =
  current_step :: string
  total_steps :: nat
  current_step_num :: nat
  percentage :: nat

text \<open>The fields of a \<^verbatim>\<open>BackupEngine\<close> object that the handlers read and write.\<close>

record BackupEngine =
  current_backup :: "BackupProgress option"
  cancel_flag :: bool

record BackupRequest =
  req_backup_type :: "BackupType option"
  req_force_full :: bool

text \<open>The process: the module-level \<^verbatim>\<open>backup_engine\<close> of \<^verbatim>\<open>api/backup.py\<close>, the engine that
  \<^verbatim>\<open>BackupScheduler.start\<close> creates for itself, and the background tasks that were handed to
  the framework; each task calls \<^verbatim>\<open>perform_backup\<close> on the engine of the API.\<close>

record process =
  api_engine :: "BackupEngine option"
  scheduler_engine :: "BackupEngine option"
  background_tasks :: "BackupRequest list"

text \<open>\<^verbatim>\<open>BackupEngine.__init__\<close>.\<close>

definition new_engine :: BackupEngine where
  "new_engine = \<lparr>current_backup = None, cancel_flag = False\<rparr>"

text \<open>\<^verbatim>\<open>get_backup_engine\<close>.\<close>

definition get_backup_engine :: "process \<Rightarrow> process \<times> BackupEngine" where
  "get_backup_engine p =
     (case api_engine p of
        None \<Rightarrow> (p\<lparr>api_engine := Some new_engine\<rparr>, new_engine)
      | Some engine \<Rightarrow> (p, engine))"

text \<open>\<^verbatim>\<open>_update_progress\<close>.\<close>

definition update_progress :: "BackupEngine \<Rightarrow> string \<Rightarrow> nat \<Rightarrow> nat \<Rightarrow> nat \<Rightarrow> BackupEngine" where
  "update_progress engine step step_num n_steps pct =
     engine\<lparr>current_backup := Some \<lparr>current_step = step, total_steps = n_steps,
                                     current_step_num = step_num, percentage = pct\<rparr>\<rparr>"

text \<open>The engine once \<^verbatim>\<open>perform_backup\<close> has started on it: the flag is reset and step 1 is
  announced. It stays in this shape, with later steps, up to the \<^verbatim>\<open>finally\<close> block, whose
  \<^verbatim>\<open>self.current_backup = None\<close> comes after \<^verbatim>\<open>_save_backup_history\<close> and is reached only
  when that returns.\<close>

definition run_started :: "BackupEngine \<Rightarrow> BackupEngine" where
  "run_started engine =
     update_progress (engine\<lparr>cancel_flag := False\<rparr>) ''Cleaning up failed uploads'' 1 7 10"

text \<open>An HTTP error, or the response body.\<close>

datatype http_error = HTTPException nat string

text \<open>\<^verbatim>\<open>start_backup\<close>, the handler of \<^verbatim>\<open>POST /backup/start\<close>.\<close>

definition start_backup :: "process \<Rightarrow> BackupRequest \<Rightarrow> process \<times> (http_error + BackupResult)" where
  "start_backup p request =
     (case get_backup_engine p of
        (p1, engine) \<Rightarrow>
          if current_backup engine \<noteq> None
          then (p1, Inl (HTTPException 409 ''A backup is already in progress''))
          else
            (p1\<lparr>background_tasks := background_tasks p1 @ [request]\<rparr>,
             Inr \<lparr>backup_id = 0, status = PENDING,
                  backup_type = (case req_backup_type request of Some t \<Rightarrow> t | None \<Rightarrow> INCREMENTAL),
                  result_size_bytes = None, error_message = None, subvolume_dict = []\<rparr>))"

text \<open>\<^verbatim>\<open>BackupScheduler.start\<close> (the scheduler is enabled and has a day selected).\<close>

definition scheduler_start :: "process \<Rightarrow> process" where
  "scheduler_start p = p\<lparr>scheduler_engine := Some new_engine\<rparr>"

text \<open>\<^verbatim>\<open>_run_scheduled_backup\<close> up to the first step of its \<^verbatim>\<open>perform_backup\<close>.\<close>

definition run_scheduled_backup_begin :: "process \<Rightarrow> process" where
  "run_scheduled_backup_begin p =
     (case scheduler_engine p of
        None \<Rightarrow> p
      | Some engine \<Rightarrow> p\<lparr>scheduler_engine := Some (run_started engine)\<rparr>)"

text \<open>The framework starts the oldest background task: \<^verbatim>\<open>run_backup\<close> calls
  \<^verbatim>\<open>perform_backup\<close> on the engine of the API.\<close>

definition background_task_begin :: "process \<Rightarrow> process" where
  "background_task_begin p =
     (case background_tasks p of
        [] \<Rightarrow> p
      | request # rest \<Rightarrow>
          (case get_backup_engine p of
             (p1, engine) \<Rightarrow> p1\<lparr>api_engine := Some (run_started engine), background_tasks := rest\<rparr>))"

text \<open>The backup runs in progress: the engines whose \<^verbatim>\<open>current_backup\<close> is set.\<close>

definition active_runs :: "process \<Rightarrow> nat" where
  "active_runs p =
     length (filter (\<lambda>en. case en of None \<Rightarrow> False | Some engine \<Rightarrow> current_backup engine \<noteq> None)
               [api_engine p, scheduler_engine p])"

section \<open>Auxiliary notions for the proofs\<close>

text \<open>One pass of the loop of step 5, when the cancel flag is not set.\<close>

definition loop_step :: "loop_state \<Rightarrow> Snapshot \<Rightarrow> subvol_result \<Rightarrow> loop_state" where
  "loop_step st s res =
     (if success res
      then st\<lparr>subvolume_results := dict_set (subvolume_results st) (subvolume s) res,
              total_size := total_size st + (case res_size res of Some n \<Rightarrow> n | None \<Rightarrow> 0)\<rparr>
      else st\<lparr>subvolume_results := dict_set (subvolume_results st) (subvolume s) res,
              loop_status := PARTIAL\<rparr>)"

text \<open>The shape of a dictionary returned by a send: success comes only with a matching size
  check, and a failed size check comes only with failure.\<close>

definition send_shape :: "subvol_result \<Rightarrow> bool" where
  "send_shape r = (res_backup_type r = None \<and> res_remote_path r = None \<and> res_subvolume r = None
     \<and> res_snapshot r = None \<and> res_parent r = None
     \<and> (success r \<longrightarrow> verified r = Some True \<and> res_size r \<noteq> None)
     \<and> (verified r = Some False \<longrightarrow> \<not> success r))"

text \<open>What the backup of one subvolume does to the ledger.\<close>

definition ledger_effect :: "env \<Rightarrow> world \<Rightarrow> Snapshot \<Rightarrow> world \<Rightarrow> subvol_result \<Rightarrow> bool" where
  "ledger_effect e w s w' r =
     ((success r \<longrightarrow> db_ok e (DbInsert (path s)) \<and> \<not> was_sent w (path s) \<and> verified r = Some True
          \<and> (\<exists>row. ledger w' = ledger w @ [row] \<and> snapshot_path row = path s
                 \<and> Some (remote_path row) = res_remote_path r
                 \<and> Some (backup_type_col row) = res_backup_type r))
      \<and> (\<not> success r \<longrightarrow> ledger w' = ledger w)
      \<and> (verified r = Some False \<longrightarrow> \<not> success r))"

text \<open>Writing the ledger row of the snapshot path \<open>p\<close> fails: \<^verbatim>\<open>_record_sent_snapshot\<close> raises
  (the other arguments of the call have no part in that).\<close>

definition ledger_write_fails :: "env \<Rightarrow> world \<Rightarrow> string \<Rightarrow> bool" where
  "ledger_write_fails e w p = isl (snd (record_sent_snapshot e w p [] 0 FULL None))"

section \<open>Example environments and worlds\<close>

text \<open>A client \<^verbatim>\<open>pc\<close> that backs up to \<^verbatim>\<open>/b\<close>, on 15 January 2024, with every command,
  statement and subprocess going through; the staged stream has 100 bytes.\<close>

definition example_settings :: Settings where
  "example_settings = \<lparr>client_name = ''pc'', unraid_base_path = ''/b'', snapshot_dir = ''/s'',
     months_to_keep = 2, daily_incremental_days = 31, local_snapshot_days = 3,
     host_root = ''/host'', host_home = ''/host-home''\<rparr>"

definition example_env :: env where
  "example_env = \<lparr>settings = example_settings, now = 5000000, local_now = 5000000,
     utcnow = 5000000, day = 15, date_str = ''20240115'', month_str = ''202401'',
     timestamp_str = ''20240115_020000'', unraid_host = Some ''tower'',
     ssh_ok = (\<lambda>c. True), db_ok = (\<lambda>q. True), cancel_requested = (\<lambda>c. False),
     snapshot_ok = (\<lambda>p. True), delete_ok = (\<lambda>p. True), snapdir_exists = True,
     pipeline = (\<lambda>parent p. PipelineOk 100),
     transfer = (\<lambda>p. \<lparr>returncode_ok = True, transfer_stderr = [], written = Some 100\<rparr>)\<rparr>"

text \<open>The insert of the ledger row for the snapshot of \<^verbatim>\<open>@\<close> raises.\<close>

definition ledger_fail_env :: env where
  "ledger_fail_env = example_env\<lparr>db_ok := (\<lambda>q. q \<noteq> DbInsert ''/s/@_20240115_020000'')\<rparr>"

text \<open>The same day with the database as the source reaches it: every statement given as a plain
  string raises, and the insert of a ledger row goes through.\<close>

definition source_env :: env where
  "source_env = example_env\<lparr>db_ok := (\<lambda>q. \<not> textual q)\<rparr>"

text \<open>With that database: the cancel flag is set from the start; it is set before the second
  subvolume; the insert of the ledger row for the snapshot of \<^verbatim>\<open>@\<close> raises.\<close>

definition cancel_early_env :: env where
  "cancel_early_env = source_env\<lparr>cancel_requested := (\<lambda>c. True)\<rparr>"

definition cancel_between_env :: env where
  "cancel_between_env = source_env\<lparr>cancel_requested := (\<lambda>c. c = BeforeSubvolume 1)\<rparr>"

definition insert_fails_env :: env where
  "insert_fails_env =
     source_env\<lparr>db_ok := (\<lambda>q. \<not> textual q \<and> q \<noteq> DbInsert ''/s/@_20240115_020000'')\<rparr>"

text \<open>The transfer returns zero, but only 50 of the 100 bytes are in the remote file.\<close>

definition short_write_env :: env where
  "short_write_env = example_env\<lparr>transfer :=
     (\<lambda>p. \<lparr>returncode_ok = True, transfer_stderr = [], written = Some 50\<rparr>)\<rparr>"

definition empty_world :: world where
  "empty_world = \<lparr>ledger = [], history = [], remote = [], snapdir = []\<rparr>"

definition artifact :: "string \<Rightarrow> int \<Rightarrow> remote_file" where
  "artifact p t = \<lparr>rpath = p, rsize = 100, rmtime = t\<rparr>"

definition sent_row :: "string \<Rightarrow> string \<Rightarrow> string \<Rightarrow> real \<Rightarrow> SentSnapshot" where
  "sent_row local rp kind t = \<lparr>snapshot_path = local, remote_path = rp, sent_at = t,
     size_bytes = 100, backup_type_col = kind, parent_snapshot = None\<rparr>"

definition root_snapshot :: Snapshot where
  "root_snapshot = \<lparr>subvolume = ''@'', path = ''/s/@_20240115_020000'',
     timestamp = ''20240115_020000'', mount_point = ''/host''\<rparr>"

text \<open>Three months of full backups, all recorded.\<close>

definition three_months :: world where
  "three_months = \<lparr>
     ledger = [sent_row ''/s/@_20231101_020000'' ''/b/pc/202311/full/@_20231101_full.btrfs.gpg'' ''full'' 100,
               sent_row ''/s/@_20231201_020000'' ''/b/pc/202312/full/@_20231201_full.btrfs.gpg'' ''full'' 200,
               sent_row ''/s/@_20240101_020000'' ''/b/pc/202401/full/@_20240101_full.btrfs.gpg'' ''full'' 300],
     history = [],
     remote = [artifact ''/b/pc/202311/full/@_20231101_full.btrfs.gpg'' 100,
               artifact ''/b/pc/202312/full/@_20231201_full.btrfs.gpg'' 200,
               artifact ''/b/pc/202401/full/@_20240101_full.btrfs.gpg'' 300],
     snapdir = []\<rparr>"

text \<open>An upload of weeks ago that no ledger row records, one of a quarter of an hour ago that
  no row records either, and a recorded one.\<close>

definition stale_upload :: remote_file where
  "stale_upload = artifact ''/b/pc/202401/full/@_20240110_full.btrfs.gpg'' 500000"

definition young_upload :: remote_file where
  "young_upload = artifact ''/b/pc/202401/full/@home_20240115_full.btrfs.gpg'' 4999000"

definition recorded_upload :: remote_file where
  "recorded_upload = artifact ''/b/pc/202401/full/@_20240101_full.btrfs.gpg'' 300"

definition orphan_world :: world where
  "orphan_world = \<lparr>
     ledger = [sent_row ''/s/@_20240101_020000'' ''/b/pc/202401/full/@_20240101_full.btrfs.gpg'' ''full'' 300],
     history = [], remote = [stale_upload, young_upload, recorded_upload], snapdir = []\<rparr>"

text \<open>The only snapshot of \<^verbatim>\<open>@\<close> that was ever sent, older than the retention window of
  three days.\<close>

definition old_sent_snapshot :: dir_entry where
  "old_sent_snapshot = \<lparr>ename = ''@_20231101_020000'', is_dir = True, st_ctime = 100\<rparr>"

definition lone_parent_world :: world where
  "lone_parent_world = \<lparr>
     ledger = [sent_row ''/s/@_20231101_020000'' ''/b/pc/202311/full/@_20231101_full.btrfs.gpg'' ''full'' 100],
     history = [],
     remote = [artifact ''/b/pc/202311/full/@_20231101_full.btrfs.gpg'' 100],
     snapdir = [old_sent_snapshot]\<rparr>"

text \<open>A full and an incremental of the current month, both older than 31 days by the clock.\<close>

definition aged_incrementals :: world where
  "aged_incrementals = \<lparr>
     ledger = [sent_row ''/s/@_20240101_020000'' ''/b/pc/202401/full/@_20240101_full.btrfs.gpg'' ''full'' 300,
               sent_row ''/s/@_20240102_020000''
                 ''/b/pc/202401/incremental/@_20240102_incremental.btrfs.gpg'' ''incremental'' 400],
     history = [],
     remote = [artifact ''/b/pc/202401/full/@_20240101_full.btrfs.gpg'' 300,
               artifact ''/b/pc/202401/incremental/@_20240102_incremental.btrfs.gpg'' 400],
     snapdir = []\<rparr>"

text \<open>A process in which nothing has run yet, and a request without options.\<close>

definition idle_process :: process where
  "idle_process = \<lparr>api_engine = None, scheduler_engine = None, background_tasks = []\<rparr>"

definition default_request :: BackupRequest where
  "default_request = \<lparr>req_backup_type = None, req_force_full = False\<rparr>"

section \<open>Lemmas\<close>

subsection \<open>Strings and \<^verbatim>\<open>LIKE\<close>\<close>

lemma startswith_iff: "startswith s p \<longleftrightarrow> (\<exists>r. s = p @ r)"
  by (induction s p rule: startswith.induct) auto

lemma startswith_append: "startswith (p @ r) (p @ q) = startswith r q"
  by (induction p) auto

lemma under_dir_siblings:
  "under_dir (b @ ''/full'') p \<Longrightarrow> \<not> under_dir (b @ ''/incremental'') p"
proof
  assume f: "under_dir (b @ ''/full'') p" and i: "under_dir (b @ ''/incremental'') p"
  from f obtain r where r: "p = b @ (''/full/'' @ r)"
    unfolding under_dir_def startswith_iff by auto
  from i have "startswith (b @ (''/full/'' @ r)) (b @ ''/incremental/'')"
    unfolding under_dir_def r by simp
  then show False
    unfolding startswith_append by simp
qed

lemma like_match_percent_intro: "like_match q t \<Longrightarrow> like_match (CHR ''%'' # q) t"
  by (cases t) auto

lemma like_match_many: "like_match ''%'' s"
  by (induction s) auto

lemma like_match_prefix: "like_match (d @ ''%'') (d @ s)"
proof (induction d)
  case Nil
  show ?case using like_match_many by simp
next
  case (Cons x d)
  show ?case
  proof (cases "x = CHR ''%''")
    case True
    have "like_match (CHR ''%'' # (d @ ''%'')) (d @ s)"
      using Cons.IH by (rule like_match_percent_intro)
    with True show ?thesis by simp
  next
    case False
    with Cons.IH show ?thesis by simp
  qed
qed

lemma under_dir_like: "under_dir d p \<Longrightarrow> like_match (d @ ''%'') p"
proof -
  assume "under_dir d p"
  then obtain r where "p = (d @ ''/'') @ r"
    unfolding under_dir_def startswith_iff by blast
  then have "p = d @ (''/'' @ r)" by simp
  then show ?thesis using like_match_prefix by metis
qed

lemma delete_like_no_under:
  "row \<in> set (delete_like rows (d @ ''%'')) \<Longrightarrow> \<not> under_dir d (remote_path row)"
  by (auto simp: delete_like_def dest: under_dir_like)

lemma delete_like_subset: "set (delete_like rows pat) \<subseteq> set rows"
  by (auto simp: delete_like_def)

subsection \<open>Orphan sweep\<close>

lemma delete_orphans_keeps:
  "delete_orphans e os fs n = (fs', n') \<Longrightarrow> f \<in> set fs \<Longrightarrow> f \<notin> set fs' \<Longrightarrow>
   distinct (map rpath fs) \<Longrightarrow>
   rpath f \<in> set os \<and> now e - real_of_int (rmtime f) > 3600"
proof (induction os arbitrary: fs n)
  case Nil
  then show ?case by simp
next
  case (Cons orphan rest)
  show ?case
  proof (cases "ssh_ok e (CmdStat orphan) \<and> ssh_ok e (CmdRm orphan) \<and>
      (\<exists>t. stat_mtime fs orphan = Some t \<and> (now e - real_of_int t) / 3600 > 1)")
    case False
    then have "delete_orphans e (orphan # rest) fs n = delete_orphans e rest fs n"
      by (auto split: option.splits simp: Let_def)
    with Cons.prems Cons.IH [of fs n] show ?thesis by auto
  next
    case True
    then obtain t where t: "stat_mtime fs orphan = Some t" "(now e - real_of_int t) / 3600 > 1"
      by blast
    from True t have step: "delete_orphans e (orphan # rest) fs n =
        delete_orphans e rest (rm_file fs orphan) (n + 1)"
      by (simp add: Let_def)
    have dist: "distinct (map rpath (rm_file fs orphan))"
      using Cons.prems(4) by (simp add: rm_file_def distinct_map_filter)
    show ?thesis
    proof (cases "rpath f = orphan")
      case True
      obtain g where g: "find (\<lambda>f. rpath f = orphan) fs = Some g" "rmtime g = t"
        using t(1) by (auto simp: stat_mtime_def)
      then have "g \<in> set fs" "rpath g = orphan"
        by (auto simp: find_Some_iff)
      with True Cons.prems(2,4) have "g = f"
        by (metis distinct_map inj_onD)
      with g t(2) True show ?thesis by simp
    next
      case False
      then have "f \<in> set (rm_file fs orphan)"
        using Cons.prems(2) by (simp add: rm_file_def)
      with Cons.IH [of "rm_file fs orphan" "n + 1"] step Cons.prems(1,3) dist
      show ?thesis by auto
    qed
  qed
qed

lemma cleanup_failed_uploads_ledger: "ledger (fst (cleanup_failed_uploads e w)) = ledger w"
  by (auto simp: cleanup_failed_uploads_def Let_def split: option.splits prod.splits)

subsection \<open>Monthly purge\<close>

lemma purge_months_ledger_subset:
  "purge_months e b ms w dm = (w', r) \<Longrightarrow> set (ledger w') \<subseteq> set (ledger w)"
proof (induction ms arbitrary: w dm)
  case Nil
  then show ?case by simp
next
  case (Cons m ms)
  show ?case
  proof (cases "db_ok e (DbDeleteLike ((b @ ''/'' @ m) @ ''%''))")
    case False
    with Cons.prems show ?thesis by (simp add: Let_def)
  next
    case True
    let ?w1 = "w\<lparr>ledger := delete_like (ledger w) ((b @ ''/'' @ m) @ ''%'')\<rparr>"
    have sub1: "set (ledger ?w1) \<subseteq> set (ledger w)" using delete_like_subset by simp
    show ?thesis
    proof (cases "ssh_ok e (CmdRmRf (b @ ''/'' @ m))")
      case True
      with \<open>db_ok e _\<close> Cons.prems
      have "purge_months e b ms (?w1\<lparr>remote := rm_rf (remote ?w1) (b @ ''/'' @ m)\<rparr>) (dm @ [m]) = (w', r)"
        by (simp add: Let_def)
      from Cons.IH [OF this] sub1 show ?thesis by auto
    next
      case False
      with \<open>db_ok e _\<close> Cons.prems
      have "purge_months e b ms ?w1 dm = (w', r)"
        by (simp add: Let_def)
      from Cons.IH [OF this] sub1 show ?thesis by auto
    qed
  qed
qed

text \<open>When no statement raises, the loop leaves no row under any of its months, whether the
  directories could be removed or not.\<close>

lemma purge_months_rows_gone:
  "purge_months e b ms w dm = (w', Inr dm') \<Longrightarrow> m \<in> set ms \<Longrightarrow> row \<in> set (ledger w') \<Longrightarrow>
   \<not> under_dir (b @ ''/'' @ m) (remote_path row)"
proof (induction ms arbitrary: w dm)
  case Nil
  then show ?case by simp
next
  case (Cons x ms)
  let ?mp = "b @ ''/'' @ x"
  have ok: "db_ok e (DbDeleteLike (?mp @ ''%''))"
    using Cons.prems(1) by (auto simp: Let_def split: if_splits)
  let ?w1 = "w\<lparr>ledger := delete_like (ledger w) (?mp @ ''%'')\<rparr>"
  let ?w2 = "if ssh_ok e (CmdRmRf ?mp) then ?w1\<lparr>remote := rm_rf (remote ?w1) ?mp\<rparr> else ?w1"
  let ?dm = "if ssh_ok e (CmdRmRf ?mp) then dm @ [x] else dm"
  have step: "purge_months e b ms ?w2 ?dm = (w', Inr dm')"
    using ok Cons.prems(1) by (simp add: Let_def split: if_splits)
  show ?case
  proof (cases "m = x")
    case True
    have "set (ledger w') \<subseteq> set (ledger ?w1)"
      using purge_months_ledger_subset [OF step] by (simp split: if_splits)
    with Cons.prems(3) have "row \<in> set (delete_like (ledger w) (?mp @ ''%''))" by auto
    from delete_like_no_under [OF this] True show ?thesis by simp
  next
    case False
    with Cons.prems(2) have "m \<in> set ms" by simp
    from Cons.IH [OF step this Cons.prems(3)] show ?thesis .
  qed
qed

lemma slice_from_beyond: "int (length xs) \<le> k \<Longrightarrow> slice_from xs k = []"
  by (auto simp: slice_from_def)

text \<open>What \<^verbatim>\<open>cleanup_old_monthly_backups\<close> is written to do: when it reports, no ledger row is
  left under a month beyond \<^verbatim>\<open>months_to_keep\<close> of the newest-first listing.\<close>

lemma monthly_purge_reported:
  assumes "cleanup_old_monthly_backups e w = (w', MonthlyReport n deleted_months)"
    and "month \<in> set (slice_from
            (filter (\<lambda>m. m \<noteq> [])
               (ls_months (remote w) (unraid_base_path (settings e) @ ''/'' @ client_name (settings e))))
            (months_to_keep (settings e)))"
    and "row \<in> set (ledger w')"
  shows "\<not> under_dir (unraid_base_path (settings e) @ ''/'' @ client_name (settings e) @ ''/'' @ month)
           (remote_path row)"
proof -
  define base where "base = unraid_base_path (settings e) @ ''/'' @ client_name (settings e)"
  define months where "months = filter (\<lambda>m. m \<noteq> []) (ls_months (remote w) base)"
  define pruned where "pruned = slice_from months (months_to_keep (settings e))"
  have m: "month \<in> set pruned"
    using assms(2) unfolding pruned_def months_def base_def .
  have big: "int (length months) > months_to_keep (settings e)"
  proof (rule ccontr)
    assume "\<not> int (length months) > months_to_keep (settings e)"
    then have "pruned = []" unfolding pruned_def by (intro slice_from_beyond) simp
    with m show False by simp
  qed
  obtain w1 r1 where p: "purge_months e base pruned w [] = (w1, r1)"
    by (cases "purge_months e base pruned w []") auto
  from assms(1) p big have "w1 = w'" "r1 = Inr deleted_months"
    unfolding cleanup_old_monthly_backups_def Let_def base_def [symmetric] months_def [symmetric]
      pruned_def [symmetric]
    by (auto split: option.splits if_splits sum.splits)
  with p have "purge_months e base pruned w [] = (w', Inr deleted_months)" by simp
  from purge_months_rows_gone [OF this m assms(3)] show ?thesis
    unfolding base_def by simp
qed

lemma ls_months_newest_first: "sorted (rev (ls_months fs base))"
  by (simp add: ls_months_def)

subsection \<open>Incremental purge\<close>

lemma find_delete_matches_old:
  assumes "find_delete_matches e d n f"
  shows "now e - real_of_int (rmtime f) > real_of_int (n * 86400)"
proof -
  from assms have "\<lfloor>(now e - real_of_int (rmtime f)) / 86400\<rfloor> \<ge> n + 1"
    by (simp add: find_delete_matches_def)
  then have "real_of_int (n + 1) \<le> (now e - real_of_int (rmtime f)) / 86400"
    by (simp add: le_floor_iff)
  then have "real_of_int (n + 1) * 86400 \<le> now e - real_of_int (rmtime f)"
    by (simp add: pos_le_divide_eq)
  then show ?thesis by simp
qed

text \<open>What the purge does for every database: a remote file is removed only if it lies under
  the current month's incremental directory, is named \<^verbatim>\<open>*.btrfs.gpg\<close> and is older than
  \<^verbatim>\<open>daily_incremental_days\<close> days, and no file under the current month's full directory is
  removed; a ledger row is removed only if its kind is \<^verbatim>\<open>incremental\<close> and its \<^verbatim>\<open>sent_at\<close>
  is before the cutoff, and when the statement goes through exactly those rows are removed.\<close>

lemma incremental_purge_general:
  assumes run: "cleanup_old_incremental_backups e w = (w', r)"
  shows "(\<forall>f \<in> set (remote w). f \<notin> set (remote w') \<longrightarrow>
            under_dir (unraid_base_path (settings e) @ ''/'' @ client_name (settings e) @ ''/''
                         @ month_str e @ ''/incremental'') (rpath f)
          \<and> endswith (rpath f) ''.btrfs.gpg''
          \<and> now e - real_of_int (rmtime f) > real_of_int (daily_incremental_days (settings e) * 86400))
       \<and> (\<forall>f \<in> set (remote w).
            under_dir (unraid_base_path (settings e) @ ''/'' @ client_name (settings e) @ ''/''
                         @ month_str e @ ''/full'') (rpath f) \<longrightarrow> f \<in> set (remote w'))
       \<and> (\<forall>row \<in> set (ledger w). row \<notin> set (ledger w') \<longrightarrow>
            backup_type_col row = ''incremental''
          \<and> sent_at row < local_now e - real_of_int (daily_incremental_days (settings e) * 86400))
       \<and> (\<forall>success. r = IncrementalReport success \<longrightarrow>
            ledger w' = filter (\<lambda>row. \<not> (backup_type_col row = ''incremental''
                 \<and> sent_at row < local_now e - real_of_int (daily_incremental_days (settings e) * 86400)))
               (ledger w))"
proof -
  define b where "b = unraid_base_path (settings e) @ ''/'' @ client_name (settings e) @ ''/'' @ month_str e"
  define n where "n = daily_incremental_days (settings e)"
  define cutoff where "cutoff = local_now e - real_of_int (n * 86400)"
  have paths: "unraid_base_path (settings e) @ ''/'' @ client_name (settings e) @ ''/''
                 @ month_str e @ ''/incremental'' = b @ ''/incremental''"
       "unraid_base_path (settings e) @ ''/'' @ client_name (settings e) @ ''/''
                 @ month_str e @ ''/full'' = b @ ''/full''"
    by (simp_all add: b_def)
  have rem: "remote w' = remote w \<or> remote w' = find_delete e (remote w) (b @ ''/incremental'') n"
    using run unfolding cleanup_old_incremental_backups_def Let_def paths n_def [symmetric]
    by (auto split: option.splits if_splits)
  have led: "ledger w' = ledger w \<and> (\<forall>s. r \<noteq> IncrementalReport s)
       \<or> ledger w' = delete_old_incremental_rows (ledger w) cutoff"
    using run unfolding cleanup_old_incremental_backups_def Let_def paths n_def [symmetric]
      cutoff_def [symmetric]
    by (auto split: option.splits if_splits)
  have A: "\<forall>f \<in> set (remote w). f \<notin> set (remote w') \<longrightarrow>
      under_dir (b @ ''/incremental'') (rpath f) \<and> endswith (rpath f) ''.btrfs.gpg''
      \<and> now e - real_of_int (rmtime f) > real_of_int (n * 86400)"
  proof (intro ballI impI)
    fix f assume "f \<in> set (remote w)" "f \<notin> set (remote w')"
    with rem have m: "find_delete_matches e (b @ ''/incremental'') n f"
      by (auto simp: find_delete_def)
    then show "under_dir (b @ ''/incremental'') (rpath f) \<and> endswith (rpath f) ''.btrfs.gpg''
      \<and> now e - real_of_int (rmtime f) > real_of_int (n * 86400)"
      using find_delete_matches_old [OF m] by (simp add: find_delete_matches_def)
  qed
  have B: "\<forall>f \<in> set (remote w). under_dir (b @ ''/full'') (rpath f) \<longrightarrow> f \<in> set (remote w')"
    using A under_dir_siblings by blast
  have C: "\<forall>row \<in> set (ledger w). row \<notin> set (ledger w') \<longrightarrow>
      backup_type_col row = ''incremental'' \<and> sent_at row < cutoff"
    using led by (auto simp: delete_old_incremental_rows_def)
  have D: "\<forall>s. r = IncrementalReport s \<longrightarrow>
      ledger w' = filter (\<lambda>row. \<not> (backup_type_col row = ''incremental'' \<and> sent_at row < cutoff)) (ledger w)"
    using led by (auto simp: delete_old_incremental_rows_def)
  from A B C D show ?thesis
    unfolding paths n_def cutoff_def by blast
qed

subsection \<open>Local snapshot aging\<close>

lemma delete_snapshot_ledger: "ledger (fst (delete_snapshot e w p)) = ledger w"
  by (simp add: delete_snapshot_def)

lemma delete_snapshot_subset: "set (snapdir (fst (delete_snapshot e w p))) \<subseteq> set (snapdir w)"
  by (auto simp: delete_snapshot_def)


text \<open>With a session that answers the query, the loop deletes an aged snapshot as soon as the
  ledger records it as sent (\<^verbatim>\<open># Was sent, safe to delete\<close>), without looking for a newer
  sent snapshot of the subvolume.\<close>

lemma local_aging_with_answering_session:
  "cleanup_old_snapshots example_env lone_parent_world 3 = (lone_parent_world\<lparr>snapdir := []\<rparr>, Inr 1)"
  by code_simp

subsection \<open>The backup of one subvolume\<close>

lemma transfer_with_progress_ledger:
  "transfer_with_progress e w rf = (w1, x) \<Longrightarrow> ledger w1 = ledger w"
  by (auto simp: transfer_with_progress_def Let_def split: option.splits)

lemma send_shape_result: "send_shape (send_result m n)"
  by (simp add: send_shape_def send_result_def)

lemma send_shape_failure: "send_shape (transfer_failure msg)"
  by (simp add: send_shape_def transfer_failure_def)

lemma send_snapshot_facts:
  "send_snapshot e w p rf = (w1, x) \<Longrightarrow>
   ledger w1 = ledger w \<and> (\<forall>r. x = Inr r \<longrightarrow> send_shape r)"
  by (auto simp: send_snapshot_def send_shape_result send_shape_failure
      split: pipeline_outcome.splits prod.splits option.splits
      dest: transfer_with_progress_ledger)

lemma send_incremental_snapshot_facts:
  "send_incremental_snapshot e w p parent rf = (w1, x) \<Longrightarrow>
   ledger w1 = ledger w \<and> (\<forall>r. x = Inr r \<longrightarrow> send_shape r)"
  by (auto simp: send_incremental_snapshot_def send_shape_result send_shape_failure
      split: pipeline_outcome.splits prod.splits option.splits
      dest: transfer_with_progress_ledger)

text \<open>The entry \<^verbatim>\<open>"verified"\<close> of a result is the outcome of the size check after a transfer
  that returned zero: the size read from the remote file equals the size of the staged file.\<close>

lemma send_snapshot_verified:
  assumes "send_snapshot e w p rf = (w1, Inr r)" and "verified r = Some m"
  shows "\<exists>n. pipeline e None p = PipelineOk n \<and> returncode_ok (transfer e rf)
      \<and> m = (check_remote_file e w1 rf = Some n)"
  using assms
  by (auto simp: send_snapshot_def send_result_def transfer_failure_def verify_remote_file_def
      transfer_with_progress_def Let_def
      split: pipeline_outcome.splits prod.splits option.splits if_splits)

lemma send_incremental_snapshot_verified:
  assumes "send_incremental_snapshot e w p parent rf = (w1, Inr r)" and "verified r = Some m"
  shows "\<exists>n. pipeline e (Some parent) p = PipelineOk n \<and> returncode_ok (transfer e rf)
      \<and> m = (check_remote_file e w1 rf = Some n)"
  using assms
  by (auto simp: send_incremental_snapshot_def send_result_def transfer_failure_def
      verify_remote_file_def transfer_with_progress_def Let_def
      split: pipeline_outcome.splits prod.splits option.splits if_splits)

lemma record_sent_snapshot_facts:
  "record_sent_snapshot e w p rp n bt parent = (w2, x) \<Longrightarrow>
   (isl x \<longrightarrow> w2 = w) \<and>
   (\<not> isl x \<longrightarrow> db_ok e (DbInsert p) \<and> \<not> was_sent w p
       \<and> (\<exists>row. ledger w2 = ledger w @ [row] \<and> snapshot_path row = p \<and> remote_path row = rp
              \<and> backup_type_col row = backup_type_value bt \<and> parent_snapshot row = parent))"
  by (auto simp: record_sent_snapshot_def split: if_splits)

lemma perform_full_backup_facts:
  assumes "perform_full_backup e w s = (w', x)"
  shows "(isl x \<longrightarrow> ledger w' = ledger w) \<and> (\<forall>r. x = Inr r \<longrightarrow> ledger_effect e w s w' r)"
  using assms unfolding perform_full_backup_def Let_def
  by (auto split: prod.splits sum.splits if_splits option.splits
      dest!: send_snapshot_facts record_sent_snapshot_facts
      simp: ledger_effect_def send_shape_def was_sent_def)

lemma perform_incremental_backup_facts:
  assumes "perform_incremental_backup e w s parent = (w', x)"
  shows "(isl x \<longrightarrow> ledger w' = ledger w) \<and> (\<forall>r. x = Inr r \<longrightarrow> ledger_effect e w s w' r)"
  using assms unfolding perform_incremental_backup_def Let_def
  by (auto split: prod.splits sum.splits if_splits option.splits
      dest!: send_incremental_snapshot_facts record_sent_snapshot_facts
      simp: ledger_effect_def send_shape_def was_sent_def)

lemma backup_snapshot_try_facts:
  assumes "backup_snapshot_try e w s bt = (w', x)"
  shows "(isl x \<longrightarrow> ledger w' = ledger w) \<and> (\<forall>r. x = Inr r \<longrightarrow> ledger_effect e w s w' r)"
proof -
  have "perform_full_backup e w s = (w', x)
      \<or> (\<exists>parent. perform_incremental_backup e w s parent = (w', x))
      \<or> (w' = w \<and> isl x)"
    using assms
    by (auto simp: backup_snapshot_try_def split: if_splits sum.splits option.splits bool.splits)
  then show ?thesis
    using perform_full_backup_facts [of e w s w' x] perform_incremental_backup_facts [of e w s _ w' x]
    by auto
qed

lemma backup_snapshot_effect:
  assumes "backup_snapshot e w s bt = (w', r)"
  shows "ledger_effect e w s w' r"
proof -
  obtain w1 x where t: "backup_snapshot_try e w s bt = (w1, x)"
    by (cases "backup_snapshot_try e w s bt") auto
  note f = backup_snapshot_try_facts [OF t]
  show ?thesis
  proof (cases x)
    case (Inl ex)
    with assms t f show ?thesis
      by (auto simp: backup_snapshot_def ledger_effect_def)
  next
    case (Inr res)
    with assms t f show ?thesis
      by (auto simp: backup_snapshot_def)
  qed
qed

lemma record_sent_snapshot_fails:
  "isl (snd (record_sent_snapshot e w p rp n bt parent)) = ledger_write_fails e w p"
  by (simp add: record_sent_snapshot_def ledger_write_fails_def)

lemma ledger_write_fails_iff:
  "ledger_write_fails e w p \<longleftrightarrow> \<not> db_ok e (DbInsert p) \<or> was_sent w p"
  by (simp add: record_sent_snapshot_def ledger_write_fails_def)

text \<open>A failing ledger write: the subvolume is reported failed and the ledger is as it was; the
  ledger only grows during a backup, so a write that fails keeps failing.\<close>

lemma ledger_write_fails_mono:
  "ledger_write_fails e w p \<Longrightarrow> set (ledger w) \<subseteq> set (ledger w') \<Longrightarrow> ledger_write_fails e w' p"
  by (auto simp: ledger_write_fails_iff was_sent_def)

lemma backup_snapshot_ledger_grows:
  "backup_snapshot e w s bt = (w', r) \<Longrightarrow> set (ledger w) \<subseteq> set (ledger w')"
  using backup_snapshot_effect [of e w s bt w' r]
  by (cases "success r") (auto simp: ledger_effect_def)

lemma backup_snapshot_write_fails:
  "backup_snapshot e w s bt = (w', r) \<Longrightarrow> ledger_write_fails e w (path s) \<Longrightarrow>
   \<not> success r \<and> ledger w' = ledger w"
  using backup_snapshot_effect [of e w s bt w' r]
  by (auto simp: ledger_effect_def ledger_write_fails_iff)

text \<open>In an incremental run, a subvolume without a sent parent is backed up in full.\<close>

lemma backup_snapshot_fallback:
  "find_parent_snapshot e w (subvolume s) = Inr None \<Longrightarrow>
   backup_snapshot e w s INCREMENTAL = backup_snapshot e w s FULL"
  by (simp add: backup_snapshot_def backup_snapshot_try_def)

subsection \<open>The loop over the snapshots and the run\<close>

lemma create_snapshots_two:
  "create_snapshots e w = (w2, Inr snaps) \<Longrightarrow>
   \<exists>s1 s2. snaps = [s1, s2] \<and> subvolume s1 = ''@'' \<and> subvolume s2 = ''@home''"
  by (auto simp: create_snapshots_def subvolumes_def create_snapshot_def Let_def
      split: if_splits)

lemma backup_loop_step:
  "\<not> cancel_requested e (BeforeSubvolume i) \<Longrightarrow> backup_snapshot e w s bt = (w1, res) \<Longrightarrow>
   backup_loop e bt (s # rest) i w st att chk =
   backup_loop e bt rest (Suc i) w1 (loop_step st s res) (att @ [s]) (chk @ [BeforeSubvolume i])"
  by (simp add: Let_def loop_step_def)

lemma backup_loop_cancel:
  "backup_loop e bt snaps i w st att chk = (w', ex, st', att', chk') \<Longrightarrow>
   c \<in> set chk' \<Longrightarrow> c \<notin> set chk \<Longrightarrow> cancel_requested e c \<Longrightarrow>
   ex = Some ''Backup cancelled by user''"
proof (induction snaps arbitrary: i w st att chk)
  case Nil
  then show ?case by simp
next
  case (Cons s rest)
  show ?case
  proof (cases "cancel_requested e (BeforeSubvolume i)")
    case True
    with Cons.prems(1) show ?thesis by simp
  next
    case False
    obtain w1 res where b: "backup_snapshot e w s bt = (w1, res)"
      by (cases "backup_snapshot e w s bt") auto
    from False Cons.prems(2,3,4) have notin: "c \<notin> set (chk @ [BeforeSubvolume i])" by auto
    from Cons.prems(1) have "backup_loop e bt rest (Suc i) w1 (loop_step st s res) (att @ [s])
        (chk @ [BeforeSubvolume i]) = (w', ex, st', att', chk')"
      unfolding backup_loop_step [OF False b] .
    from Cons.IH [OF this Cons.prems(2) notin Cons.prems(4)] show ?thesis .
  qed
qed

lemma backup_loop_no_cancel:
  "(\<forall>j < length snaps. \<not> cancel_requested e (BeforeSubvolume (i + j))) \<Longrightarrow>
   \<exists>w' st' chk'. backup_loop e bt snaps i w st att chk = (w', None, st', att @ snaps, chk')"
proof (induction snaps arbitrary: i w st att chk)
  case Nil
  then show ?case by simp
next
  case (Cons s rest)
  obtain w1 res where b: "backup_snapshot e w s bt = (w1, res)"
    by (cases "backup_snapshot e w s bt") auto
  from Cons.prems have nc: "\<not> cancel_requested e (BeforeSubvolume i)" by force
  from Cons.prems have "\<forall>j < length rest. \<not> cancel_requested e (BeforeSubvolume (Suc i + j))"
    by force
  from Cons.IH [OF this, of w1 "loop_step st s res" "att @ [s]" "chk @ [BeforeSubvolume i]"]
  show ?case unfolding backup_loop_step [OF nc b] by simp
qed

lemma backup_loop_completed:
  "backup_loop e bt snaps i w st att chk = (w', None, st', att', chk') \<Longrightarrow> att' = att @ snaps"
proof (induction snaps arbitrary: i w st att chk)
  case Nil
  then show ?case by simp
next
  case (Cons s rest)
  obtain w1 res where b: "backup_snapshot e w s bt = (w1, res)"
    by (cases "backup_snapshot e w s bt") auto
  have nc: "\<not> cancel_requested e (BeforeSubvolume i)"
    using Cons.prems by (auto split: if_splits)
  from Cons.prems have "backup_loop e bt rest (Suc i) w1 (loop_step st s res) (att @ [s])
        (chk @ [BeforeSubvolume i]) = (w', None, st', att', chk')"
    unfolding backup_loop_step [OF nc b] .
  from Cons.IH [OF this] show ?case by simp
qed

lemma backup_loop_two:
  assumes "backup_loop e bt [s1, s2] i w st att chk = (w', None, st', att', chk')"
    and "subvolume_results st = []" and "subvolume s1 \<noteq> subvolume s2"
  shows "\<exists>w1 r1 r2. backup_snapshot e w s1 bt = (w1, r1) \<and> backup_snapshot e w1 s2 bt = (w', r2)
     \<and> subvolume_results st' = [(subvolume s1, r1), (subvolume s2, r2)]"
proof -
  obtain w1 r1 where b1: "backup_snapshot e w s1 bt = (w1, r1)"
    by (cases "backup_snapshot e w s1 bt") auto
  obtain w2 r2 where b2: "backup_snapshot e w1 s2 bt = (w2, r2)"
    by (cases "backup_snapshot e w1 s2 bt") auto
  have nc1: "\<not> cancel_requested e (BeforeSubvolume i)"
    using assms(1) by (auto split: if_splits)
  have l1: "backup_loop e bt [s2] (Suc i) w1 (loop_step st s1 r1) (att @ [s1])
        (chk @ [BeforeSubvolume i]) = (w', None, st', att', chk')"
    using assms(1) unfolding backup_loop_step [OF nc1 b1] .
  have nc2: "\<not> cancel_requested e (BeforeSubvolume (Suc i))"
    using l1 by (auto split: if_splits)
  have l2: "backup_loop e bt [] (Suc (Suc i)) w2 (loop_step (loop_step st s1 r1) s2 r2)
        ((att @ [s1]) @ [s2]) ((chk @ [BeforeSubvolume i]) @ [BeforeSubvolume (Suc i)])
        = (w', None, st', att', chk')"
    using l1 unfolding backup_loop_step [OF nc2 b2] .
  then have "w2 = w'" "st' = loop_step (loop_step st s1 r1) s2 r2" by simp_all
  moreover have "subvolume_results (loop_step (loop_step st s1 r1) s2 r2)
      = [(subvolume s1, r1), (subvolume s2, r2)]"
    using assms(2,3) by (simp add: loop_step_def)
  ultimately show ?thesis using b1 b2 by auto
qed

lemma final_status_success:
  "final_status rs = SUCCESS \<longleftrightarrow> (\<forall>x \<in> set (map snd rs). success x)"
  by (auto simp: final_status_def list_all_iff list_ex_iff)

lemma final_status_partial:
  "final_status rs = PARTIAL \<longleftrightarrow>
     (\<exists>x \<in> set (map snd rs). success x) \<and> (\<exists>x \<in> set (map snd rs). \<not> success x)"
  by (auto simp: final_status_def list_all_iff list_ex_iff)

lemma final_status_failed:
  "final_status rs = FAILED \<longleftrightarrow> rs \<noteq> [] \<and> (\<forall>x \<in> set (map snd rs). \<not> success x)"
  by (cases rs) (auto simp: final_status_def list_all_iff list_ex_iff)

text \<open>The stages of a run that entered the loop over the snapshots.\<close>

lemma perform_backup_try_stages:
  assumes "perform_backup_try e w bt ff = (w', ending, r, att, chk)"
    and "ending = Aggregated \<or> (\<exists>i. BeforeSubvolume i \<in> set chk)"
  shows "\<exists>kind w2 snaps w3 ex st.
      \<not> cancel_requested e AfterCleanup \<and> \<not> cancel_requested e AfterSnapshots
    \<and> (case bt of None \<Rightarrow> determine_backup_type e (fst (cleanup_failed_uploads e w)) ff
                 | Some t \<Rightarrow> Inr t) = Inr kind
    \<and> create_snapshots e (fst (cleanup_failed_uploads e w)) = (w2, Inr snaps)
    \<and> backup_loop e kind snaps 0 w2
         \<lparr>total_size = 0, subvolume_results = [], loop_status = RUNNING\<rparr> []
         [AfterCleanup, AfterSnapshots] = (w3, ex, st, att, chk)
    \<and> backup_type r = kind
    \<and> (ending = Aggregated \<longrightarrow> ex = None \<and> subvolume_dict r = subvolume_results st
          \<and> status r = final_status (subvolume_results st)
          \<and> result_size_bytes r = Some (total_size st))
    \<and> (\<forall>m. ex = Some m \<longrightarrow> ending = Raised m)"
  using assms unfolding perform_backup_try_def Let_def
  by (auto split: if_splits sum.splits prod.splits option.splits)

lemma perform_backup_try_cancel:
  assumes "perform_backup_try e w bt ff = (w1, ending, res, att, chk)"
    and "c \<in> set chk" and "cancel_requested e c"
  shows "ending = Raised ''Backup cancelled by user''"
proof (cases "\<exists>i. c = BeforeSubvolume i")
  case False
  then have "c = AfterCleanup \<or> c = AfterSnapshots" by (cases c) auto
  with assms show ?thesis
    unfolding perform_backup_try_def Let_def
    by (auto split: if_splits sum.splits prod.splits option.splits)
next
  case True
  with assms(2) have "\<exists>i. BeforeSubvolume i \<in> set chk" by auto
  from perform_backup_try_stages [OF assms(1) disjI2 [OF this]]
  obtain kind w2 snaps w3 ex st where
    loop: "backup_loop e kind snaps 0 w2
         \<lparr>total_size = 0, subvolume_results = [], loop_status = RUNNING\<rparr> []
         [AfterCleanup, AfterSnapshots] = (w3, ex, st, att, chk)"
    and ex: "\<forall>m. ex = Some m \<longrightarrow> ending = Raised m"
    by blast
  from True have "c \<notin> set [AfterCleanup, AfterSnapshots]" by auto
  from backup_loop_cancel [OF loop assms(2) this assms(3)] ex show ?thesis by simp
qed

text \<open>The kind of a run. The result starts as \<^verbatim>\<open>BackupType.FULL\<close>; step 2 sets the kind
  that the caller named, or the one that \<^verbatim>\<open>_determine_backup_type\<close> returns.\<close>

lemma perform_backup_try_kind:
  assumes "perform_backup_try e w bt ff = (w', ending, r, att, chk)"
  shows "(\<forall>t. bt = Some t \<and> \<not> cancel_requested e AfterCleanup \<longrightarrow> backup_type r = t)
       \<and> (bt = None \<and> (ff \<or> day e = 1 \<or> ledger w = []) \<longrightarrow> backup_type r = FULL)
       \<and> (backup_type r = INCREMENTAL \<longrightarrow>
            bt = Some INCREMENTAL \<or> (bt = None \<and> \<not> ff \<and> day e \<noteq> 1 \<and> ledger w \<noteq> []))"
  using assms unfolding perform_backup_try_def Let_def determine_backup_type_def
  by (auto simp: cleanup_failed_uploads_ledger
      split: if_splits sum.splits prod.splits option.splits)

text \<open>The result of a run has status \<^verbatim>\<open>success\<close>, \<^verbatim>\<open>partial\<close> or \<^verbatim>\<open>failed\<close> when the
  \<^verbatim>\<open>finally\<close> block is entered: no run is marked \<^verbatim>\<open>cancelled\<close>.\<close>

lemma final_status_range:
  "final_status rs = SUCCESS \<or> final_status rs = PARTIAL \<or> final_status rs = FAILED"
  by (simp add: final_status_def)

lemma handled_status_range:
  assumes "perform_backup_try e w bt ff = (w1, ending, res, att, chk)"
  shows "status (handle_exception ending res) = SUCCESS
     \<or> status (handle_exception ending res) = PARTIAL
     \<or> status (handle_exception ending res) = FAILED"
proof (cases ending)
  case (Raised m)
  then show ?thesis by (simp add: handle_exception_def)
next
  case Aggregated
  from perform_backup_try_stages [OF assms disjI1 [OF Aggregated]] Aggregated
  obtain st :: loop_state where "status res = final_status (subvolume_results st)" by blast
  with Aggregated final_status_range [of "subvolume_results st"] show ?thesis
    by (simp add: handle_exception_def)
qed

text \<open>The keyword \<^verbatim>\<open>extra_metadata\<close> is not a column of \<^verbatim>\<open>BackupHistory\<close>: the history row is
  never saved, and \<^verbatim>\<open>perform_backup\<close> raises from its \<^verbatim>\<open>finally\<close> block whatever the run
  did.\<close>

lemma save_backup_history_raises:
  "fst (save_backup_history e w result) = w \<and> isl (snd (save_backup_history e w result))"
  by (simp add: save_backup_history_def BackupHistory_columns_def save_history_keywords_def)

lemma perform_backup_raises: "isl (snd (perform_backup e w bt ff))"
  by (simp add: perform_backup_def save_backup_history_raises split: prod.splits)

text \<open>The ledger on the way to the loop over the snapshots.\<close>

lemma create_snapshots_ledger: "ledger (fst (create_snapshots e w)) = ledger w"
  by (simp add: create_snapshots_def subvolumes_def create_snapshot_def Let_def
      delete_snapshot_ledger)

subsection \<open>The start handler\<close>

text \<open>While the slot of the API's engine is occupied, a start request gets 409 and nothing is
  added to the background tasks.\<close>

lemma start_backup_busy:
  assumes "api_engine p = Some engine" and "current_backup engine \<noteq> None"
  shows "start_backup p request = (p, Inl (HTTPException 409 ''A backup is already in progress''))"
  using assms by (simp add: start_backup_def get_backup_engine_def)

section \<open>The claims\<close>

subsection \<open>C1: cancellation\<close>

text \<open>
  C1, as stated, fails. When the cancel flag is read as set, \<^verbatim>\<open>perform_backup\<close> raises
  \<^verbatim>\<open>Exception("Backup cancelled by user")\<close>; the handler \<^verbatim>\<open>except Exception\<close> of the same
  function sets the status of the result to \<^verbatim>\<open>failed\<close>. No statement of the program assigns
  \<^verbatim>\<open>BackupStatus.CANCELLED\<close>. Here, with the database of the source, the flag is set from the
  start and is read after the orphan cleanup: the result enters the \<^verbatim>\<open>finally\<close> block with
  status \<open>FAILED\<close>, not \<open>CANCELLED\<close> (and \<^verbatim>\<open>perform_backup\<close> returns no result at all: the
  history save raises).
\<close>

theorem cancel_early_is_failed_not_cancelled:
  "cancel_requested cancel_early_env AfterCleanup
   \<and> AfterCleanup \<in> set (snd (snd (snd (snd (perform_backup_try cancel_early_env empty_world None False)))))
   \<and> status (handle_exception
        (fst (snd (perform_backup_try cancel_early_env empty_world None False)))
        (fst (snd (snd (perform_backup_try cancel_early_env empty_world None False))))) = FAILED
   \<and> status (handle_exception
        (fst (snd (perform_backup_try cancel_early_env empty_world None False)))
        (fst (snd (snd (perform_backup_try cancel_early_env empty_world None False))))) \<noteq> CANCELLED
   \<and> isl (snd (perform_backup cancel_early_env empty_world None False))"
  by code_simp

text \<open>
  C1, amended. For every backup run in which the cancel flag is read as set at one of the places
  where \<^verbatim>\<open>perform_backup\<close> reads it (after the orphan cleanup, after the snapshot creation,
  before a per-subvolume iteration), the \<^verbatim>\<open>try\<close> block ends with the exception
  \<^verbatim>\<open>Backup cancelled by user\<close> and the handler of \<^verbatim>\<open>perform_backup\<close> gives the result of the
  run the aggregate status \<^verbatim>\<open>failed\<close> and that error message; this is the result that
  \<^verbatim>\<open>perform_backup\<close> hands to \<^verbatim>\<open>_save_backup_history\<close>. The list \<open>chk\<close> is the trace of the
  places where the run read the flag. Nothing is assumed of the database.
\<close>

theorem cancelled_run_is_marked_failed:
  assumes "perform_backup_try e w bt ff = (w1, ending, res, att, chk)"
    and "c \<in> set chk" and "cancel_requested e c"
  shows "ending = Raised ''Backup cancelled by user''
     \<and> status (handle_exception ending res) = FAILED
     \<and> error_message (handle_exception ending res) = Some ''Backup cancelled by user''
     \<and> perform_backup e w bt ff = save_backup_history e w1 (handle_exception ending res)"
proof -
  from perform_backup_try_cancel [OF assms]
  have "ending = Raised ''Backup cancelled by user''" .
  with assms(1) show ?thesis
    by (simp add: perform_backup_def handle_exception_def)
qed

text \<open>Witness for C1: a full run on the database of the source; \<^verbatim>\<open>@\<close> is backed up, then the
  flag is read as set before \<^verbatim>\<open>@home\<close>.\<close>

theorem cancelled_run_is_marked_failed_witness:
  "BeforeSubvolume 1 \<in> set (snd (snd (snd (snd (perform_backup_try cancel_between_env empty_world (Some FULL) False)))))
   \<and> cancel_requested cancel_between_env (BeforeSubvolume 1)
   \<and> map subvolume (fst (snd (snd (snd (perform_backup_try cancel_between_env empty_world (Some FULL) False))))) = [''@'']
   \<and> fst (snd (perform_backup_try cancel_between_env empty_world (Some FULL) False))
        = Raised ''Backup cancelled by user''
   \<and> status (handle_exception
        (fst (snd (perform_backup_try cancel_between_env empty_world (Some FULL) False)))
        (fst (snd (snd (perform_backup_try cancel_between_env empty_world (Some FULL) False))))) = FAILED
   \<and> error_message (handle_exception
        (fst (snd (perform_backup_try cancel_between_env empty_world (Some FULL) False)))
        (fst (snd (snd (perform_backup_try cancel_between_env empty_world (Some FULL) False)))))
        = Some ''Backup cancelled by user''"
proof -
  let ?X = "perform_backup_try cancel_between_env empty_world (Some FULL) False"
  have run: "?X = (fst ?X, fst (snd ?X), fst (snd (snd ?X)), fst (snd (snd (snd ?X))), snd (snd (snd (snd ?X))))"
    by simp
  have c: "BeforeSubvolume 1 \<in> set (snd (snd (snd (snd ?X))))" by code_simp
  have f: "cancel_requested cancel_between_env (BeforeSubvolume 1)" by code_simp
  have a: "map subvolume (fst (snd (snd (snd ?X)))) = [''@'']" by code_simp
  from cancelled_run_is_marked_failed [OF run c f] c f a show ?thesis by blast
qed

subsection \<open>C2: a failed ledger write\<close>

text \<open>
  C2, as stated, fails. The insert of the ledger row is inside the \<^verbatim>\<open>try\<close> of
  \<^verbatim>\<open>_backup_snapshot\<close>, whose handler turns every exception into a failure dictionary for
  that subvolume. Here, in a full run on the database of the source, the insert for \<^verbatim>\<open>@\<close>
  raises: the run still attempts \<^verbatim>\<open>@home\<close>, which succeeds, it reaches the final
  aggregation, and the aggregate status is \<open>PARTIAL\<close>, not \<open>FAILED\<close>.
\<close>

theorem ledger_write_failure_gives_partial_run:
  "ledger_write_fails insert_fails_env empty_world (path root_snapshot)
   \<and> root_snapshot \<in> set (fst (snd (snd (snd (perform_backup_try insert_fails_env empty_world (Some FULL) False)))))
   \<and> map subvolume (fst (snd (snd (snd (perform_backup_try insert_fails_env empty_world (Some FULL) False)))))
       = [''@'', ''@home'']
   \<and> fst (snd (perform_backup_try insert_fails_env empty_world (Some FULL) False)) = Aggregated
   \<and> map (success \<circ> snd) (subvolume_dict (fst (snd (snd
        (perform_backup_try insert_fails_env empty_world (Some FULL) False))))) = [False, True]
   \<and> status (fst (snd (snd (perform_backup_try insert_fails_env empty_world (Some FULL) False)))) = PARTIAL
   \<and> status (handle_exception
        (fst (snd (perform_backup_try insert_fails_env empty_world (Some FULL) False)))
        (fst (snd (snd (perform_backup_try insert_fails_env empty_world (Some FULL) False))))) \<noteq> FAILED"
  by code_simp

text \<open>
  C2, amended. When the sent-ledger row of a snapshot cannot be written (the insert raises, or
  the ledger already holds a row for the snapshot path, which is unique), the failure is not
  fatal for the run: \<^verbatim>\<open>_backup_snapshot\<close> reports that subvolume as failed and leaves the ledger
  as it was (an artifact that was uploaded stays on the remote host without a row for this
  snapshot), and a run that attempted the snapshot and reaches the final aggregation attempted
  both subvolumes, reports this one as failed, and has aggregate status \<^verbatim>\<open>partial\<close> if a
  subvolume succeeded and \<^verbatim>\<open>failed\<close> otherwise.
\<close>

theorem ledger_write_failure_fails_subvolume_only:
  "(ledger_write_fails e w0 (path s) \<and> backup_snapshot e w0 s kind = (w1, x) \<longrightarrow>
      \<not> success x \<and> ledger w1 = ledger w0)
   \<and> (ledger_write_fails e w (path s)
        \<and> perform_backup_try e w bt ff = (w', Aggregated, r, att, chk) \<and> s \<in> set att \<longrightarrow>
          map subvolume att = [''@'', ''@home'']
        \<and> (\<exists>x. (subvolume s, x) \<in> set (subvolume_dict r) \<and> \<not> success x)
        \<and> (status r = PARTIAL \<or> status r = FAILED)
        \<and> (status r = PARTIAL \<longleftrightarrow> (\<exists>x \<in> set (map snd (subvolume_dict r)). success x)))"
proof (rule conjI; rule impI)
  assume "ledger_write_fails e w0 (path s) \<and> backup_snapshot e w0 s kind = (w1, x)"
  then show "\<not> success x \<and> ledger w1 = ledger w0"
    using backup_snapshot_write_fails by blast
next
  assume h: "ledger_write_fails e w (path s)
        \<and> perform_backup_try e w bt ff = (w', Aggregated, r, att, chk) \<and> s \<in> set att"
  then have run: "perform_backup_try e w bt ff = (w', Aggregated, r, att, chk)" by simp
  from perform_backup_try_stages [OF run]
  obtain kind w2 snaps w3 st where
    cs: "create_snapshots e (fst (cleanup_failed_uploads e w)) = (w2, Inr snaps)"
    and loop: "backup_loop e kind snaps 0 w2
         \<lparr>total_size = 0, subvolume_results = [], loop_status = RUNNING\<rparr> []
         [AfterCleanup, AfterSnapshots] = (w3, None, st, att, chk)"
    and res: "status r = final_status (subvolume_results st)"
      "subvolume_dict r = subvolume_results st"
    by auto
  from create_snapshots_two [OF cs] obtain s1 s2 where
    two: "snaps = [s1, s2]" "subvolume s1 = ''@''" "subvolume s2 = ''@home''" by blast
  from backup_loop_completed [OF loop] two have att: "att = [s1, s2]" by simp
  from backup_loop_two [OF loop [unfolded two(1)]] two(2,3)
  obtain wa r1 r2 where d: "backup_snapshot e w2 s1 kind = (wa, r1)"
    "backup_snapshot e wa s2 kind = (w3, r2)"
    "subvolume_results st = [(''@'', r1), (''@home'', r2)]" by auto
  have "ledger w2 = ledger w"
    using create_snapshots_ledger [of e "fst (cleanup_failed_uploads e w)"] cs
    by (simp add: cleanup_failed_uploads_ledger)
  with h have f2: "ledger_write_fails e w2 (path s)"
    by (simp add: ledger_write_fails_iff was_sent_def)
  from ledger_write_fails_mono [OF f2 backup_snapshot_ledger_grows [OF d(1)]]
  have fa: "ledger_write_fails e wa (path s)" .
  from h att have "s = s1 \<or> s = s2" by simp
  then have which: "(s = s1 \<and> \<not> success r1) \<or> (s = s2 \<and> \<not> success r2)"
    using backup_snapshot_write_fails [OF d(1)] backup_snapshot_write_fails [OF d(2)] f2 fa
    by auto
  then have own: "\<exists>x. (subvolume s, x) \<in> set (subvolume_dict r) \<and> \<not> success x"
    unfolding res d(3) using two(2,3) by auto
  from which have fail: "\<not> success r1 \<or> \<not> success r2" by auto
  then have ns: "final_status (subvolume_results st) \<noteq> SUCCESS"
    unfolding final_status_success d(3) by auto
  have pf: "status r = PARTIAL \<or> status r = FAILED"
    using ns unfolding res by (auto simp: final_status_def split: if_splits)
  have iff: "status r = PARTIAL \<longleftrightarrow> (\<exists>x \<in> set (map snd (subvolume_dict r)). success x)"
    unfolding res final_status_partial using fail d(3) by auto
  from att two own pf iff
  show "map subvolume att = [''@'', ''@home'']
     \<and> (\<exists>x. (subvolume s, x) \<in> set (subvolume_dict r) \<and> \<not> success x)
     \<and> (status r = PARTIAL \<or> status r = FAILED)
     \<and> (status r = PARTIAL \<longleftrightarrow> (\<exists>x \<in> set (map snd (subvolume_dict r)). success x))"
    by simp
qed

text \<open>Witness for C2: the failed insert for \<^verbatim>\<open>@\<close> in a full run on the database of the
  source; the uploaded artifact is on the remote host, and the run is partial.\<close>

theorem ledger_write_failure_witness:
  "ledger_write_fails insert_fails_env empty_world (path root_snapshot)
   \<and> \<not> success (snd (backup_snapshot insert_fails_env empty_world root_snapshot FULL))
   \<and> ledger (fst (backup_snapshot insert_fails_env empty_world root_snapshot FULL)) = []
   \<and> map rpath (remote (fst (backup_snapshot insert_fails_env empty_world root_snapshot FULL)))
        = [''/b/pc/202401/full/@_20240115_full.btrfs.gpg'']
   \<and> fst (snd (perform_backup_try insert_fails_env empty_world (Some FULL) False)) = Aggregated
   \<and> root_snapshot \<in> set (fst (snd (snd (snd (perform_backup_try insert_fails_env empty_world (Some FULL) False)))))
   \<and> map subvolume (fst (snd (snd (snd (perform_backup_try insert_fails_env empty_world (Some FULL) False)))))
        = [''@'', ''@home'']
   \<and> status (fst (snd (snd (perform_backup_try insert_fails_env empty_world (Some FULL) False)))) = PARTIAL"
proof -
  let ?X = "perform_backup_try insert_fails_env empty_world (Some FULL) False"
  let ?B = "backup_snapshot insert_fails_env empty_world root_snapshot FULL"
  have h: "ledger_write_fails insert_fails_env empty_world (path root_snapshot)" by code_simp
  have b: "?B = (fst ?B, snd ?B)" by simp
  have agg: "fst (snd ?X) = Aggregated" by code_simp
  have run: "?X = (fst ?X, Aggregated, fst (snd (snd ?X)), fst (snd (snd (snd ?X))), snd (snd (snd (snd ?X))))"
    unfolding agg [symmetric] by simp
  have att: "root_snapshot \<in> set (fst (snd (snd (snd ?X))))" by code_simp
  have rem: "map rpath (remote (fst ?B)) = [''/b/pc/202401/full/@_20240115_full.btrfs.gpg'']"
    by code_simp
  have e: "ledger empty_world = []" by code_simp
  have ok: "list_ex (\<lambda>x. success x) (map snd (subvolume_dict (fst (snd (snd ?X)))))" by code_simp
  from ledger_write_failure_fails_subvolume_only [of insert_fails_env empty_world root_snapshot
      FULL "fst ?B" "snd ?B" empty_world "Some FULL" False "fst ?X" "fst (snd (snd ?X))"
      "fst (snd (snd (snd ?X)))" "snd (snd (snd (snd ?X)))"] h b run att
  have "\<not> success (snd ?B) \<and> ledger (fst ?B) = ledger empty_world"
    and "map subvolume (fst (snd (snd (snd ?X)))) = [''@'', ''@home'']"
    and "status (fst (snd (snd ?X))) = PARTIAL \<longleftrightarrow>
           (\<exists>x \<in> set (map snd (subvolume_dict (fst (snd (snd ?X))))). success x)"
    by blast+
  with h agg rem e att ok show ?thesis by (simp add: list_ex_iff)
qed

subsection \<open>C3: ledger rows of a per-subvolume upload\<close>

text \<open>
  C3. For every per-subvolume backup of a run (\<^verbatim>\<open>_backup_snapshot\<close>, full or incremental): if
  the size check after the transfer did not match (the entry \<^verbatim>\<open>"verified"\<close> of the result is
  false), the subvolume is reported failed and the ledger is unchanged; a failed subvolume never
  changes the ledger; and if the subvolume succeeds, exactly one row was appended to the ledger,
  it is the row of this snapshot, and it is the only row of this snapshot. The last two parts
  say what \<^verbatim>\<open>"verified"\<close> is: after a transfer that returned zero, \<^verbatim>\<open>_send_snapshot\<close> and
  \<^verbatim>\<open>_send_incremental_snapshot\<close> report success, and verified, exactly when the size read from
  the remote file equals the size of the staged file.
\<close>

theorem subvolume_ledger_rows:
  assumes "backup_snapshot e w snapshot kind = (w', r)"
  shows "(verified r = Some False \<longrightarrow> \<not> success r \<and> ledger w' = ledger w)
       \<and> (\<not> success r \<longrightarrow> ledger w' = ledger w)
       \<and> (success r \<longrightarrow>
            (\<exists>row. ledger w' = ledger w @ [row] \<and> snapshot_path row = path snapshot
                   \<and> Some (remote_path row) = res_remote_path r)
          \<and> length (filter (\<lambda>row. snapshot_path row = path snapshot) (ledger w')) = 1)
       \<and> (\<forall>w0 p rf w1 res n.
            send_snapshot e w0 p rf = (w1, Inr res) \<and> pipeline e None p = PipelineOk n
              \<and> returncode_ok (transfer e rf) \<longrightarrow>
            verified res = Some (check_remote_file e w1 rf = Some n)
              \<and> success res = (check_remote_file e w1 rf = Some n))
       \<and> (\<forall>w0 p parent rf w1 res n.
            send_incremental_snapshot e w0 p parent rf = (w1, Inr res)
              \<and> pipeline e (Some parent) p = PipelineOk n \<and> returncode_ok (transfer e rf) \<longrightarrow>
            verified res = Some (check_remote_file e w1 rf = Some n)
              \<and> success res = (check_remote_file e w1 rf = Some n))"
proof -
  from backup_snapshot_effect [OF assms] have eff: "ledger_effect e w snapshot w' r" .
  have "success r \<Longrightarrow> filter (\<lambda>row. snapshot_path row = path snapshot) (ledger w) = []"
    using eff by (auto simp: ledger_effect_def was_sent_def filter_empty_conv image_iff)
  with eff have rows: "(verified r = Some False \<longrightarrow> \<not> success r \<and> ledger w' = ledger w)
       \<and> (\<not> success r \<longrightarrow> ledger w' = ledger w)
       \<and> (success r \<longrightarrow>
            (\<exists>row. ledger w' = ledger w @ [row] \<and> snapshot_path row = path snapshot
                   \<and> Some (remote_path row) = res_remote_path r)
          \<and> length (filter (\<lambda>row. snapshot_path row = path snapshot) (ledger w')) = 1)"
    by (auto simp: ledger_effect_def)
  have full: "\<forall>w0 p rf w1 res n.
            send_snapshot e w0 p rf = (w1, Inr res) \<and> pipeline e None p = PipelineOk n
              \<and> returncode_ok (transfer e rf) \<longrightarrow>
            verified res = Some (check_remote_file e w1 rf = Some n)
              \<and> success res = (check_remote_file e w1 rf = Some n)"
    by (auto simp: send_snapshot_def send_result_def verify_remote_file_def
        transfer_with_progress_def Let_def split: option.splits)
  have inc: "\<forall>w0 p parent rf w1 res n.
            send_incremental_snapshot e w0 p parent rf = (w1, Inr res)
              \<and> pipeline e (Some parent) p = PipelineOk n \<and> returncode_ok (transfer e rf) \<longrightarrow>
            verified res = Some (check_remote_file e w1 rf = Some n)
              \<and> success res = (check_remote_file e w1 rf = Some n)"
    by (auto simp: send_incremental_snapshot_def send_result_def verify_remote_file_def
        transfer_with_progress_def Let_def split: option.splits)
  from rows full inc show ?thesis by blast
qed

text \<open>Witness for C3: a short remote file fails the size check; a complete one is recorded once.\<close>

theorem subvolume_ledger_rows_witness:
  "pipeline short_write_env None (path root_snapshot) = PipelineOk 100
   \<and> check_remote_file short_write_env
        (fst (backup_snapshot short_write_env empty_world root_snapshot FULL))
        ''/b/pc/202401/full/@_20240115_full.btrfs.gpg'' = Some 50
   \<and> verified (snd (backup_snapshot short_write_env empty_world root_snapshot FULL)) = Some False
   \<and> \<not> success (snd (backup_snapshot short_write_env empty_world root_snapshot FULL))
   \<and> ledger (fst (backup_snapshot short_write_env empty_world root_snapshot FULL)) = ledger empty_world
   \<and> success (snd (backup_snapshot example_env empty_world root_snapshot FULL))
   \<and> length (filter (\<lambda>row. snapshot_path row = path root_snapshot)
        (ledger (fst (backup_snapshot example_env empty_world root_snapshot FULL)))) = 1"
proof -
  let ?B = "backup_snapshot short_write_env empty_world root_snapshot FULL"
  let ?G = "backup_snapshot example_env empty_world root_snapshot FULL"
  have b: "?B = (fst ?B, snd ?B)" and g: "?G = (fst ?G, snd ?G)" by simp_all
  have v: "verified (snd ?B) = Some False" by code_simp
  have s: "success (snd ?G)" by code_simp
  have p: "pipeline short_write_env None (path root_snapshot) = PipelineOk 100" by code_simp
  have c: "check_remote_file short_write_env (fst ?B)
        ''/b/pc/202401/full/@_20240115_full.btrfs.gpg'' = Some 50" by code_simp
  from subvolume_ledger_rows [OF b]
  have "\<not> success (snd ?B) \<and> ledger (fst ?B) = ledger empty_world" using v by blast
  moreover from subvolume_ledger_rows [OF g]
  have "length (filter (\<lambda>row. snapshot_path row = path root_snapshot) (ledger (fst ?G))) = 1"
    using s by blast
  ultimately show ?thesis using v s p c by blast
qed

subsection \<open>C4: orphan sweep\<close>

text \<open>
  C4. Orphan sweep: whatever the outcome of the remote commands, a remote file that the sweep
  removes has a path that no sent-ledger row records, and its modification time is more than
  3600 seconds (one hour) before the clock reading; hence no artifact recorded in the ledger and
  no artifact younger than one hour is deleted. The ledger itself is left as it was. The remote
  host holds one file per path.
\<close>

theorem orphan_sweep_only_old_unrecorded:
  assumes "cleanup_failed_uploads e w = (w', r)"
    and "distinct (map rpath (remote w))"
    and "f \<in> set (remote w)" and "f \<notin> set (remote w')"
  shows "rpath f \<notin> set (map remote_path (ledger w))
     \<and> now e - real_of_int (rmtime f) > 3600
     \<and> ledger w' = ledger w"
proof -
  define base_path where "base_path = unraid_base_path (settings e) @ ''/'' @ client_name (settings e)"
  define orph where "orph = filter (\<lambda>p. p \<notin> set (map remote_path (ledger w)))
      (filter (\<lambda>f. f \<noteq> []) (find_artifacts (remote w) base_path))"
  obtain fs' n' where d: "delete_orphans e orph (remote w) 0 = (fs', n')"
    by (cases "delete_orphans e orph (remote w) 0")
  have "w' = w \<or> w' = w\<lparr>remote := fs'\<rparr>"
    using assms(1) d
    by (auto simp: cleanup_failed_uploads_def Let_def base_path_def orph_def
        split: option.splits if_splits)
  with assms(3,4) have w': "w' = w\<lparr>remote := fs'\<rparr>" by auto
  with assms(3,4) have "f \<notin> set fs'" by simp
  from delete_orphans_keeps [OF d assms(3) this assms(2)]
  have "rpath f \<in> set orph" "now e - real_of_int (rmtime f) > 3600" by auto
  then show ?thesis using w' by (auto simp: orph_def)
qed

text \<open>Witness for C4: the unrecorded upload of weeks ago is swept; the young one and the
  recorded one stay.\<close>

theorem orphan_sweep_witness:
  "cleanup_failed_uploads example_env orphan_world
     = (orphan_world\<lparr>remote := [young_upload, recorded_upload]\<rparr>, OrphanReport 2 1)
   \<and> rpath stale_upload \<notin> set (map remote_path (ledger orphan_world))
   \<and> now example_env - real_of_int (rmtime stale_upload) > 3600"
proof -
  have run: "cleanup_failed_uploads example_env orphan_world
      = (orphan_world\<lparr>remote := [young_upload, recorded_upload]\<rparr>, OrphanReport 2 1)"
    by code_simp
  have d: "distinct (map rpath (remote orphan_world))" by code_simp
  have i: "stale_upload \<in> set (remote orphan_world)" by code_simp
  have o: "stale_upload \<notin> set (remote (orphan_world\<lparr>remote := [young_upload, recorded_upload]\<rparr>))"
    by code_simp
  from orphan_sweep_only_old_unrecorded [OF run d i o] run show ?thesis by simp
qed

subsection \<open>C5: the kind of a run\<close>

text \<open>
  C5, as stated, fails. \<^verbatim>\<open>perform_backup\<close> decides the kind only when the caller names none
  (\<^verbatim>\<open>if backup_type is None\<close>). On the database of the source, a caller that names
  \<^verbatim>\<open>incremental\<close> gets a run of kind incremental although it forced full, and although the
  ledger is empty.
\<close>

theorem explicit_incremental_overrides_force_full:
  "backup_type (fst (snd (snd (perform_backup_try source_env three_months (Some INCREMENTAL) True))))
     = INCREMENTAL
   \<and> backup_type (fst (snd (snd (perform_backup_try source_env empty_world (Some INCREMENTAL) False))))
     = INCREMENTAL
   \<and> ledger empty_world = []
   \<and> backup_type (handle_exception
        (fst (snd (perform_backup_try source_env three_months (Some INCREMENTAL) True)))
        (fst (snd (snd (perform_backup_try source_env three_months (Some INCREMENTAL) True)))))
     \<noteq> FULL"
  by code_simp

text \<open>
  C5, amended. For every run: if the caller named a backup type and the run gets past the first
  cancel check, the kind of the run is that type; if the caller named none and forced full, or
  the calendar day is 1, or the sent-ledger is empty, the kind is full; the kind is incremental
  only if the caller named \<^verbatim>\<open>incremental\<close>, or named no type, did not force full, the day is
  not 1 and the ledger is not empty. In a run of kind incremental that reaches the final
  aggregation, a subvolume for which \<^verbatim>\<open>find_parent_snapshot\<close> returns no sent parent falls back
  to a full backup: the result recorded for it is that of the full backup of its snapshot, in
  the world as the run found it at that point. Nothing is assumed of the database.
\<close>

theorem run_kind_decision:
  assumes "perform_backup_try e w bt ff = (w', ending, r, att, chk)"
  shows "(\<forall>t. bt = Some t \<and> \<not> cancel_requested e AfterCleanup \<longrightarrow> backup_type r = t)
       \<and> (bt = None \<and> (ff \<or> day e = 1 \<or> ledger w = []) \<longrightarrow> backup_type r = FULL)
       \<and> (backup_type r = INCREMENTAL \<longrightarrow>
            bt = Some INCREMENTAL \<or> (bt = None \<and> \<not> ff \<and> day e \<noteq> 1 \<and> ledger w \<noteq> []))
       \<and> (ending = Aggregated \<and> backup_type r = INCREMENTAL \<longrightarrow>
            (\<exists>w2 s1 s2.
               create_snapshots e (fst (cleanup_failed_uploads e w)) = (w2, Inr [s1, s2])
             \<and> subvolume s1 = ''@'' \<and> subvolume s2 = ''@home''
             \<and> map fst (subvolume_dict r) = [''@'', ''@home'']
             \<and> (find_parent_snapshot e w2 ''@'' = Inr None \<longrightarrow>
                  map snd (subvolume_dict r) ! 0 = snd (backup_snapshot e w2 s1 FULL))
             \<and> (find_parent_snapshot e (fst (backup_snapshot e w2 s1 INCREMENTAL)) ''@home'' = Inr None \<longrightarrow>
                  map snd (subvolume_dict r) ! 1
                    = snd (backup_snapshot e (fst (backup_snapshot e w2 s1 INCREMENTAL)) s2 FULL))))"
proof -
  have fallback: "ending = Aggregated \<and> backup_type r = INCREMENTAL \<longrightarrow>
            (\<exists>w2 s1 s2.
               create_snapshots e (fst (cleanup_failed_uploads e w)) = (w2, Inr [s1, s2])
             \<and> subvolume s1 = ''@'' \<and> subvolume s2 = ''@home''
             \<and> map fst (subvolume_dict r) = [''@'', ''@home'']
             \<and> (find_parent_snapshot e w2 ''@'' = Inr None \<longrightarrow>
                  map snd (subvolume_dict r) ! 0 = snd (backup_snapshot e w2 s1 FULL))
             \<and> (find_parent_snapshot e (fst (backup_snapshot e w2 s1 INCREMENTAL)) ''@home'' = Inr None \<longrightarrow>
                  map snd (subvolume_dict r) ! 1
                    = snd (backup_snapshot e (fst (backup_snapshot e w2 s1 INCREMENTAL)) s2 FULL)))"
  proof
    assume h: "ending = Aggregated \<and> backup_type r = INCREMENTAL"
    from perform_backup_try_stages [OF assms disjI1 [OF conjunct1 [OF h]]] h
    obtain w2 snaps w3 st where
      cs: "create_snapshots e (fst (cleanup_failed_uploads e w)) = (w2, Inr snaps)"
      and loop: "backup_loop e INCREMENTAL snaps 0 w2
           \<lparr>total_size = 0, subvolume_results = [], loop_status = RUNNING\<rparr> []
           [AfterCleanup, AfterSnapshots] = (w3, None, st, att, chk)"
      and res: "subvolume_dict r = subvolume_results st"
      by auto
    from create_snapshots_two [OF cs] obtain s1 s2 where
      two: "snaps = [s1, s2]" "subvolume s1 = ''@''" "subvolume s2 = ''@home''" by blast
    from backup_loop_two [OF loop [unfolded two(1)]] two(2,3)
    obtain wa r1 r2 where d: "backup_snapshot e w2 s1 INCREMENTAL = (wa, r1)"
      "backup_snapshot e wa s2 INCREMENTAL = (w3, r2)"
      "subvolume_results st = [(''@'', r1), (''@home'', r2)]" by auto
    have p1: "snd (backup_snapshot e w2 s1 INCREMENTAL) = r1"
      and p2: "fst (backup_snapshot e w2 s1 INCREMENTAL) = wa"
      using d(1) by simp_all
    have p3: "snd (backup_snapshot e wa s2 INCREMENTAL) = r2"
      using d(2) by simp
    have a: "find_parent_snapshot e w2 ''@'' = Inr None \<longrightarrow>
        map snd (subvolume_dict r) ! 0 = snd (backup_snapshot e w2 s1 FULL)"
    proof
      assume "find_parent_snapshot e w2 ''@'' = Inr None"
      then have "backup_snapshot e w2 s1 INCREMENTAL = backup_snapshot e w2 s1 FULL"
        using backup_snapshot_fallback [of e w2 s1] two(2) by simp
      with p1 show "map snd (subvolume_dict r) ! 0 = snd (backup_snapshot e w2 s1 FULL)"
        unfolding res d(3) by simp
    qed
    have b: "find_parent_snapshot e (fst (backup_snapshot e w2 s1 INCREMENTAL)) ''@home'' = Inr None \<longrightarrow>
        map snd (subvolume_dict r) ! 1
          = snd (backup_snapshot e (fst (backup_snapshot e w2 s1 INCREMENTAL)) s2 FULL)"
    proof
      assume "find_parent_snapshot e (fst (backup_snapshot e w2 s1 INCREMENTAL)) ''@home'' = Inr None"
      then have "backup_snapshot e wa s2 INCREMENTAL = backup_snapshot e wa s2 FULL"
        using backup_snapshot_fallback [of e wa s2] two(3) p2 by simp
      with p3 show "map snd (subvolume_dict r) ! 1
          = snd (backup_snapshot e (fst (backup_snapshot e w2 s1 INCREMENTAL)) s2 FULL)"
        unfolding res d(3) p2 by simp
    qed
    from cs two a b d(3) res
    show "\<exists>w2 s1 s2.
               create_snapshots e (fst (cleanup_failed_uploads e w)) = (w2, Inr [s1, s2])
             \<and> subvolume s1 = ''@'' \<and> subvolume s2 = ''@home''
             \<and> map fst (subvolume_dict r) = [''@'', ''@home'']
             \<and> (find_parent_snapshot e w2 ''@'' = Inr None \<longrightarrow>
                  map snd (subvolume_dict r) ! 0 = snd (backup_snapshot e w2 s1 FULL))
             \<and> (find_parent_snapshot e (fst (backup_snapshot e w2 s1 INCREMENTAL)) ''@home'' = Inr None \<longrightarrow>
                  map snd (subvolume_dict r) ! 1
                    = snd (backup_snapshot e (fst (backup_snapshot e w2 s1 INCREMENTAL)) s2 FULL))"
      by auto
  qed
  from perform_backup_try_kind [OF assms] fallback show ?thesis by blast
qed

text \<open>Witness for C5. On the database of the source: an explicit \<^verbatim>\<open>incremental\<close> with
  \<^verbatim>\<open>force_full\<close>, and a forced full. In a run the snapshot directory holds the snapshot just
  created, so \<^verbatim>\<open>find_parent_snapshot\<close> issues its query; for the fall-back, the third run is on
  a database that answers it: the ledger is not empty on day 15, no local snapshot is recorded
  as sent, and both subvolumes are backed up in full.\<close>

theorem run_kind_decision_witness:
  "\<not> cancel_requested source_env AfterCleanup
   \<and> backup_type (fst (snd (snd (perform_backup_try source_env three_months (Some INCREMENTAL) True))))
       = INCREMENTAL
   \<and> backup_type (fst (snd (snd (perform_backup_try source_env three_months None True)))) = FULL
   \<and> fst (snd (perform_backup_try example_env three_months None False)) = Aggregated
   \<and> backup_type (fst (snd (snd (perform_backup_try example_env three_months None False)))) = INCREMENTAL
   \<and> find_parent_snapshot example_env
        (fst (create_snapshots example_env (fst (cleanup_failed_uploads example_env three_months))))
        ''@'' = Inr None
   \<and> map snd (subvolume_dict (fst (snd (snd (perform_backup_try example_env three_months None False))))) ! 0
       = snd (backup_snapshot example_env
           (fst (create_snapshots example_env (fst (cleanup_failed_uploads example_env three_months))))
           root_snapshot FULL)
   \<and> map (res_backup_type \<circ> snd)
        (subvolume_dict (fst (snd (snd (perform_backup_try example_env three_months None False)))))
       = [Some ''full'', Some ''full'']"
proof -
  let ?Y = "perform_backup_try source_env three_months (Some INCREMENTAL) True"
  let ?Z = "perform_backup_try source_env three_months None True"
  let ?X = "perform_backup_try example_env three_months None False"
  let ?C = "create_snapshots example_env (fst (cleanup_failed_uploads example_env three_months))"
  have runY: "?Y = (fst ?Y, fst (snd ?Y), fst (snd (snd ?Y)), fst (snd (snd (snd ?Y))), snd (snd (snd (snd ?Y))))"
    by simp
  have runZ: "?Z = (fst ?Z, fst (snd ?Z), fst (snd (snd ?Z)), fst (snd (snd (snd ?Z))), snd (snd (snd (snd ?Z))))"
    by simp
  have runX: "?X = (fst ?X, fst (snd ?X), fst (snd (snd ?X)), fst (snd (snd (snd ?X))), snd (snd (snd (snd ?X))))"
    by simp
  have nc: "\<not> cancel_requested source_env AfterCleanup" by code_simp
  from run_kind_decision [OF runY] nc
  have y: "backup_type (fst (snd (snd ?Y))) = INCREMENTAL" by blast
  from run_kind_decision [OF runZ]
  have z: "backup_type (fst (snd (snd ?Z))) = FULL" by blast
  have agg: "fst (snd ?X) = Aggregated" by code_simp
  have kind: "backup_type (fst (snd (snd ?X))) = INCREMENTAL" by code_simp
  have fp: "find_parent_snapshot example_env (fst ?C) ''@'' = Inr None" by code_simp
  have first: "hd (projr (snd ?C)) = root_snapshot" by code_simp
  have kinds: "map (res_backup_type \<circ> snd) (subvolume_dict (fst (snd (snd ?X))))
       = [Some ''full'', Some ''full'']" by code_simp
  from run_kind_decision [OF runX] agg kind
  obtain w2 s1 s2 where cs: "?C = (w2, Inr [s1, s2])"
    and fb: "find_parent_snapshot example_env w2 ''@'' = Inr None \<longrightarrow>
       map snd (subvolume_dict (fst (snd (snd ?X)))) ! 0 = snd (backup_snapshot example_env w2 s1 FULL)"
    by blast
  from cs have w2: "w2 = fst ?C" and s1: "s1 = hd (projr (snd ?C))" by simp_all
  from fb fp have "map snd (subvolume_dict (fst (snd (snd ?X)))) ! 0
      = snd (backup_snapshot example_env (fst ?C) root_snapshot FULL)"
    unfolding w2 s1 first by blast
  with nc y z agg kind fp kinds show ?thesis by blast
qed

subsection \<open>C6: aggregation\<close>

text \<open>
  C6. For every backup run that reaches the final aggregation, the results are those of the two
  configured subvolumes and the aggregate status is \<^verbatim>\<open>success\<close> exactly if every result
  succeeded, \<^verbatim>\<open>partial\<close> exactly if at least one but not all succeeded, and \<^verbatim>\<open>failed\<close> exactly
  if none succeeded. A failing subvolume does not abort the run: once the loop over the
  snapshots is entered and the cancel flag is not set, both subvolumes are attempted, whatever
  the outcome of the first.
\<close>

theorem aggregate_status_and_continuation:
  assumes "perform_backup_try e w bt ff = (w', ending, r, att, chk)"
  shows "(ending = Aggregated \<longrightarrow>
            map fst (subvolume_dict r) = [''@'', ''@home'']
          \<and> (status r = SUCCESS \<longleftrightarrow> (\<forall>x \<in> set (map snd (subvolume_dict r)). success x))
          \<and> (status r = PARTIAL \<longleftrightarrow> (\<exists>x \<in> set (map snd (subvolume_dict r)). success x)
                                     \<and> (\<exists>x \<in> set (map snd (subvolume_dict r)). \<not> success x))
          \<and> (status r = FAILED \<longleftrightarrow> (\<forall>x \<in> set (map snd (subvolume_dict r)). \<not> success x)))
       \<and> ((\<exists>i. BeforeSubvolume i \<in> set chk) \<and> (\<forall>i. \<not> cancel_requested e (BeforeSubvolume i)) \<longrightarrow>
            map subvolume att = [''@'', ''@home''])"
proof (intro conjI impI)
  assume agg: "ending = Aggregated"
  from perform_backup_try_stages [OF assms disjI1 [OF agg]] agg
  obtain kind w2 snaps w3 st where
    cs: "create_snapshots e (fst (cleanup_failed_uploads e w)) = (w2, Inr snaps)"
    and loop: "backup_loop e kind snaps 0 w2
         \<lparr>total_size = 0, subvolume_results = [], loop_status = RUNNING\<rparr> []
         [AfterCleanup, AfterSnapshots] = (w3, None, st, att, chk)"
    and res: "subvolume_dict r = subvolume_results st" "status r = final_status (subvolume_results st)"
    by blast
  from create_snapshots_two [OF cs] obtain s1 s2 where
    two: "snaps = [s1, s2]" "subvolume s1 = ''@''" "subvolume s2 = ''@home''" by blast
  from backup_loop_two [OF loop [unfolded two(1)]] two(2,3)
  obtain r1 r2 where d: "subvolume_results st = [(''@'', r1), (''@home'', r2)]" by auto
  show "map fst (subvolume_dict r) = [''@'', ''@home'']" using res d by simp
  show "status r = SUCCESS \<longleftrightarrow> (\<forall>x \<in> set (map snd (subvolume_dict r)). success x)"
    using res final_status_success by simp
  show "status r = PARTIAL \<longleftrightarrow> (\<exists>x \<in> set (map snd (subvolume_dict r)). success x)
                                     \<and> (\<exists>x \<in> set (map snd (subvolume_dict r)). \<not> success x)"
    using res final_status_partial by simp
  show "status r = FAILED \<longleftrightarrow> (\<forall>x \<in> set (map snd (subvolume_dict r)). \<not> success x)"
    using res d final_status_failed [of "subvolume_results st"] by simp
next
  assume h: "(\<exists>i. BeforeSubvolume i \<in> set chk) \<and> (\<forall>i. \<not> cancel_requested e (BeforeSubvolume i))"
  from perform_backup_try_stages [OF assms disjI2 [OF conjunct1 [OF h]]]
  obtain kind w2 snaps w3 ex st where
    cs: "create_snapshots e (fst (cleanup_failed_uploads e w)) = (w2, Inr snaps)"
    and loop: "backup_loop e kind snaps 0 w2
         \<lparr>total_size = 0, subvolume_results = [], loop_status = RUNNING\<rparr> []
         [AfterCleanup, AfterSnapshots] = (w3, ex, st, att, chk)"
    by blast
  from h have "\<forall>j < length snaps. \<not> cancel_requested e (BeforeSubvolume (0 + j))" by simp
  from backup_loop_no_cancel [OF this, of kind w2
      "\<lparr>total_size = 0, subvolume_results = [], loop_status = RUNNING\<rparr>" "[]"
      "[AfterCleanup, AfterSnapshots]"] loop
  have "att = snaps" by auto
  with create_snapshots_two [OF cs] show "map subvolume att = [''@'', ''@home'']" by auto
qed

text \<open>Witness for C6: \<^verbatim>\<open>@\<close> fails, \<^verbatim>\<open>@home\<close> is attempted and succeeds, the run is partial.\<close>

theorem aggregate_status_witness:
  "fst (snd (perform_backup_try ledger_fail_env empty_world None False)) = Aggregated
   \<and> map (success \<circ> snd) (subvolume_dict (fst (snd (snd (perform_backup_try ledger_fail_env empty_world None False)))))
       = [False, True]
   \<and> status (fst (snd (snd (perform_backup_try ledger_fail_env empty_world None False)))) = PARTIAL
   \<and> map subvolume (fst (snd (snd (snd (perform_backup_try ledger_fail_env empty_world None False)))))
       = [''@'', ''@home'']"
proof -
  let ?X = "perform_backup_try ledger_fail_env empty_world None False"
  have run: "?X = (fst ?X, fst (snd ?X), fst (snd (snd ?X)), fst (snd (snd (snd ?X))), snd (snd (snd (snd ?X))))"
    by simp
  have agg: "fst (snd ?X) = Aggregated" by code_simp
  have res: "map (success \<circ> snd) (subvolume_dict (fst (snd (snd ?X)))) = [False, True]" by code_simp
  have chk: "BeforeSubvolume 0 \<in> set (snd (snd (snd (snd ?X))))" by code_simp
  have nc: "\<forall>i. \<not> cancel_requested ledger_fail_env (BeforeSubvolume i)"
    by (simp add: ledger_fail_env_def example_env_def)
  from res have ex: "(\<exists>x \<in> set (map snd (subvolume_dict (fst (snd (snd ?X))))). success x)
      \<and> (\<exists>x \<in> set (map snd (subvolume_dict (fst (snd (snd ?X))))). \<not> success x)"
    by (auto simp: map_eq_Cons_conv)
  from aggregate_status_and_continuation [OF run] agg res chk nc ex show ?thesis by blast
qed

subsection \<open>C7: local snapshot aging\<close>



subsection \<open>C8: incremental purge\<close>

text \<open>
  C8 does not hold of the program in its last part. \<^verbatim>\<open>cleanup_old_incremental_backups\<close> first
  runs \<^verbatim>\<open>find ... -mtime +n -delete\<close> on the current month's incremental directory, then
  (\<^verbatim>\<open># Clean up database entries\<close>) gives its \<^verbatim>\<open>DELETE\<close> to the session as a plain string,
  which raises. Here the aged incremental artifact of the current month is removed and the full
  artifact stays, but the ledger keeps both rows: the row of the deleted artifact is not removed,
  and the function reports an error.
\<close>

theorem incremental_purge_keeps_rows_of_deleted_artifacts:
  "cleanup_old_incremental_backups source_env aged_incrementals
     = (aged_incrementals\<lparr>remote := take 1 (remote aged_incrementals)\<rparr>, CleanupError ''database error'')
   \<and> map rpath (remote aged_incrementals)
       = [''/b/pc/202401/full/@_20240101_full.btrfs.gpg'',
          ''/b/pc/202401/incremental/@_20240102_incremental.btrfs.gpg'']
   \<and> map rpath (remote (fst (cleanup_old_incremental_backups source_env aged_incrementals)))
       = [''/b/pc/202401/full/@_20240101_full.btrfs.gpg'']
   \<and> map remote_path (ledger (fst (cleanup_old_incremental_backups source_env aged_incrementals)))
       = [''/b/pc/202401/full/@_20240101_full.btrfs.gpg'',
          ''/b/pc/202401/incremental/@_20240102_incremental.btrfs.gpg'']"
  by code_simp

subsection \<open>C9: single flight\<close>

text \<open>
  C9 does not hold of the program. \<^verbatim>\<open>start_backup\<close> checks the slot \<^verbatim>\<open>current_backup\<close> of
  the engine of \<^verbatim>\<open>api/backup.py\<close> only (\<^verbatim>\<open># Check if backup is already running\<close>), while
  \<^verbatim>\<open>BackupScheduler.start\<close> creates an engine of its own. While a scheduled run is in progress
  (one active run), a start request is answered with status \<^verbatim>\<open>pending\<close> instead of 409 and its
  task is queued; when the task starts, two runs are active.
\<close>

theorem start_during_scheduled_run_is_accepted:
  "active_runs (run_scheduled_backup_begin (scheduler_start idle_process)) = 1
   \<and> map_sum id status (snd (start_backup (run_scheduled_backup_begin (scheduler_start idle_process))
        default_request)) = Inr PENDING
   \<and> background_tasks (fst (start_backup (run_scheduled_backup_begin (scheduler_start idle_process))
        default_request)) = [default_request]
   \<and> active_runs (background_task_begin (fst (start_backup
        (run_scheduled_backup_begin (scheduler_start idle_process)) default_request))) = 2"
  by code_simp

subsection \<open>C10: monthly purge\<close>

text \<open>
  C10 does not hold of the program. For each month beyond \<^verbatim>\<open>months_to_keep\<close>,
  \<^verbatim>\<open>cleanup_old_monthly_backups\<close> first (\<^verbatim>\<open># Remove from database first\<close>) gives its
  \<^verbatim>\<open>DELETE ... LIKE\<close> to the session as a plain string, which raises; the handler of the
  function returns an error dictionary. Here three months are listed and two are kept: the rows
  of the oldest month are not deleted, its directory is not removed, and the ledger still
  references the month.
\<close>

theorem monthly_purge_keeps_rows_of_expired_month:
  "ls_months (remote three_months) ''/b/pc'' = [''202401'', ''202312'', ''202311'']
   \<and> months_to_keep (settings source_env) = 2
   \<and> cleanup_old_monthly_backups source_env three_months = (three_months, CleanupError ''database error'')
   \<and> map remote_path (filter (\<lambda>row. under_dir ''/b/pc/202311'' (remote_path row))
        (ledger (fst (cleanup_old_monthly_backups source_env three_months))))
       = [''/b/pc/202311/full/@_20231101_full.btrfs.gpg'']
   \<and> map rpath (filter (\<lambda>f. under_dir ''/b/pc/202311'' (rpath f))
        (remote (fst (cleanup_old_monthly_backups source_env three_months))))
       = [''/b/pc/202311/full/@_20231101_full.btrfs.gpg'']"
  by code_simp

end
